theory Spec2Isabelle
  imports Complex_Main
begin

section \<open>JavaScript values\<close>

text \<open>
  The controllers compute with JavaScript numbers. A number is modelled as \<open>NaN\<close>, one of
  the two infinities, or a finite value; finite values are exact rationals, so the
  rounding error of binary floating point is not part of the model (and neither is the
  negative zero). Every constant of the source (\<open>0.01\<close>, \<open>100\<close>) is the rational it
  denotes.
\<close>

datatype jsnum = NaN | PosInf | NegInf | Num rat

fun js_neg :: "jsnum \<Rightarrow> jsnum" where
  "js_neg NaN = NaN"
| "js_neg PosInf = NegInf"
| "js_neg NegInf = PosInf"
| "js_neg (Num a) = Num (- a)"

fun js_add :: "jsnum \<Rightarrow> jsnum \<Rightarrow> jsnum" where
  "js_add NaN y = NaN"
| "js_add x NaN = NaN"
| "js_add PosInf NegInf = NaN"
| "js_add NegInf PosInf = NaN"
| "js_add PosInf y = PosInf"
| "js_add x PosInf = PosInf"
| "js_add NegInf y = NegInf"
| "js_add x NegInf = NegInf"
| "js_add (Num a) (Num b) = Num (a + b)"

definition js_sub :: "jsnum \<Rightarrow> jsnum \<Rightarrow> jsnum" where
  "js_sub x y = js_add x (js_neg y)"

fun js_sgn :: "jsnum \<Rightarrow> int" where
  "js_sgn NaN = 0"
| "js_sgn PosInf = 1"
| "js_sgn NegInf = -1"
| "js_sgn (Num a) = (if a < 0 then -1 else if a = 0 then 0 else 1)"

fun js_mul :: "jsnum \<Rightarrow> jsnum \<Rightarrow> jsnum" where
  "js_mul NaN y = NaN"
| "js_mul x NaN = NaN"
| "js_mul (Num a) (Num b) = Num (a * b)"
| "js_mul x y =
     (if js_sgn x * js_sgn y = 0 then NaN
      else if js_sgn x * js_sgn y > 0 then PosInf else NegInf)"

fun js_div :: "jsnum \<Rightarrow> jsnum \<Rightarrow> jsnum" where
  "js_div NaN y = NaN"
| "js_div x NaN = NaN"
| "js_div (Num a) (Num b) =
     (if b = 0 then (if a = 0 then NaN else if a > 0 then PosInf else NegInf)
      else Num (a / b))"
| "js_div (Num a) y = Num 0"
| "js_div x (Num b) = (if js_sgn x * (if b < 0 then -1 else 1) > 0 then PosInf else NegInf)"
| "js_div x y = NaN"

fun js_abs :: "jsnum \<Rightarrow> jsnum" where
  "js_abs NaN = NaN"
| "js_abs PosInf = PosInf"
| "js_abs NegInf = PosInf"
| "js_abs (Num a) = Num \<bar>a\<bar>"

text \<open>The comparison \<open>x > y\<close>: false as soon as one side is \<open>NaN\<close>.\<close>

fun js_gt :: "jsnum \<Rightarrow> jsnum \<Rightarrow> bool" where
  "js_gt NaN y = False"
| "js_gt x NaN = False"
| "js_gt (Num a) (Num b) = (b < a)"
| "js_gt PosInf y = (y \<noteq> PosInf)"
| "js_gt x NegInf = (x \<noteq> NegInf)"
| "js_gt x y = False"

text \<open>The comparison \<open>x <= y\<close>: false as soon as one side is \<open>NaN\<close>.\<close>

fun js_le :: "jsnum \<Rightarrow> jsnum \<Rightarrow> bool" where
  "js_le NaN y = False"
| "js_le x NaN = False"
| "js_le x y = (\<not> js_gt x y)"

text \<open>
  A value of a request body (parsed JSON): a scalar, an object (its properties in order)
  or an array.
\<close>

datatype jsval =
    JUndefined
  | JNull
  | JBool bool
  | JNum jsnum
  | JStr string
  | JObj "(string \<times> jsval) list"
  | JArr "jsval list"

subsection \<open>Strings: \<open>split\<close>, \<open>toFixed(2)\<close>, \<open>parseFloat\<close>\<close>

text \<open>\<open>s.split(c)\<close> for a one-character separator: \<open>n\<close> separators give \<open>n + 1\<close> fragments.\<close>

fun js_split :: "char \<Rightarrow> string \<Rightarrow> string list" where
  "js_split c [] = [[]]"
| "js_split c (x # xs) =
     (if x = c then [] # js_split c xs
      else (case js_split c xs of [] \<Rightarrow> [[x]] | f # fs \<Rightarrow> (x # f) # fs))"

definition digit_char :: "nat \<Rightarrow> char" where
  "digit_char d = ''0123456789'' ! (d mod 10)"

fun show_nat :: "nat \<Rightarrow> string" where
  "show_nat n = (if n < 10 then [digit_char n] else show_nat (n div 10) @ [digit_char (n mod 10)])"

declare show_nat.simps [simp del]

text \<open>
  \<open>x.toFixed(2)\<close>: the sign, then the integer \<open>n\<close> nearest to \<open>|x| * 100\<close> (the larger one
  on a tie) printed with two fraction digits. (From \<open>10^21\<close> on JavaScript prints the
  number in exponent notation instead; the model prints fixed notation throughout.)
\<close>

definition cents :: "rat \<Rightarrow> nat" where
  "cents x = nat \<lfloor>\<bar>x\<bar> * 100 + 1 / 2\<rfloor>"

fun toFixed2 :: "jsnum \<Rightarrow> string" where
  "toFixed2 NaN = ''NaN''"
| "toFixed2 PosInf = ''Infinity''"
| "toFixed2 NegInf = ''-Infinity''"
| "toFixed2 (Num x) =
     (if x < 0 then ''-'' else '''') @ show_nat (cents x div 100) @ ''.'' @
       [digit_char (cents x div 10), digit_char (cents x)]"

subsection \<open>Plain objects used as dictionaries\<close>

text \<open>
  An object literal \<open>{}\<close> filled by assignments \<open>o[k] = v\<close>: the properties in insertion
  order. Assigning to a key that exists keeps its place.
\<close>

type_synonym 'v obj = "(string \<times> 'v) list"

fun assign :: "'v obj \<Rightarrow> string \<Rightarrow> 'v \<Rightarrow> 'v obj" where
  "assign [] k v = [(k, v)]"
| "assign ((k', v') # kvs) k v =
     (if k' = k then (k, v) # kvs else (k', v') # assign kvs k v)"

text \<open>\<open>o[k] || 0\<close>: a missing property, \<open>NaN\<close> and \<open>0\<close> all give \<open>0\<close>.\<close>

fun or0 :: "jsnum option \<Rightarrow> jsnum" where
  "or0 None = Num 0"
| "or0 (Some NaN) = Num 0"
| "or0 (Some v) = v"

definition is_digit :: "char \<Rightarrow> bool" where
  "is_digit c = (c \<in> set ''0123456789'')"

definition digit_val :: "char \<Rightarrow> nat" where
  "digit_val c = of_char c - 48"

definition nat_of_digits :: "string \<Rightarrow> nat" where
  "nat_of_digits s = foldl (\<lambda>a c. 10 * a + digit_val c) 0 s"

text \<open>
  \<open>for (k in o)\<close> visits the keys that are array indices (canonical numerals below
  \<open>2^32 - 1\<close>) in ascending order first, then the other keys in insertion order.
\<close>

definition is_array_index :: "string \<Rightarrow> bool" where
  "is_array_index s =
     (s \<noteq> [] \<and> list_all is_digit s \<and> (s = ''0'' \<or> hd s \<noteq> CHR ''0'') \<and>
      nat_of_digits s < 2 ^ 32 - 1)"

definition ownKeys :: "'v obj \<Rightarrow> string list" where
  "ownKeys b =
     sort_key nat_of_digits (filter is_array_index (map fst b)) @
     filter (\<lambda>k. \<not> is_array_index k) (map fst b)"

section \<open>The ledger rows read by the balance queries\<close>

text \<open>
  The rows as the store's \<open>select\<close> returns them: identifiers are strings, amounts are
  numbers (\<open>Number(amount)\<close> is the amount itself).
\<close>

record expense_split =
  split_user_id :: string
  split_amount :: jsnum

record expense =
  expense_group_id :: string
  expense_paid_by :: string
  expense_splits :: "expense_split list"

record settlement =
  settlement_group_id :: string
  settlement_paid_by :: string
  settlement_paid_to :: string
  settlement_amount :: jsnum

section \<open>getGroupBalances\<close>

text \<open>An entry of \<open>simplifiedBalances\<close>; \<open>None\<close> is JavaScript's \<open>undefined\<close>.\<close>

record balance =
  from_user :: "string option"
  to_user :: "string option"
  net_amount :: string

text \<open>The template literal \<open>`${a}-${b}`\<close> on two strings.\<close>

definition pairKey :: "string \<Rightarrow> string \<Rightarrow> string" where
  "pairKey a b = a @ ''-'' @ b"

text \<open>A destructured fragment inside a template literal: \<open>undefined\<close> prints as text.\<close>

fun tmpl :: "string option \<Rightarrow> string" where
  "tmpl None = ''undefined''"
| "tmpl (Some s) = s"

text \<open>The expense loop: a split of somebody other than the payer adds to \<open>ower-payer\<close>.\<close>

definition addSplit :: "string \<Rightarrow> jsnum obj \<Rightarrow> expense_split \<Rightarrow> jsnum obj" where
  "addSplit paid_by balances s =
     (if split_user_id s \<noteq> paid_by
      then (let key = pairKey (split_user_id s) paid_by
            in assign balances key (js_add (or0 (map_of balances key)) (split_amount s)))
      else balances)"

definition addExpense :: "jsnum obj \<Rightarrow> expense \<Rightarrow> jsnum obj" where
  "addExpense balances e = foldl (addSplit (expense_paid_by e)) balances (expense_splits e)"

text \<open>The settlement loop: a settlement subtracts from \<open>paid_to-paid_by\<close>.\<close>

definition addSettlement :: "jsnum obj \<Rightarrow> settlement \<Rightarrow> jsnum obj" where
  "addSettlement balances st =
     (let key = pairKey (settlement_paid_to st) (settlement_paid_by st)
      in assign balances key (js_sub (or0 (map_of balances key)) (settlement_amount st)))"

definition groupLedger :: "expense list \<Rightarrow> settlement list \<Rightarrow> jsnum obj" where
  "groupLedger expenses settlements = foldl addSettlement (foldl addExpense [] expenses) settlements"

text \<open>\<open>const [fromUser, toUser] = key.split('-')\<close>.\<close>

definition endpoints :: "string \<Rightarrow> string option \<times> string option" where
  "endpoints key =
     (case js_split CHR ''-'' key of
        [] \<Rightarrow> (None, None)
      | [f] \<Rightarrow> (Some f, None)
      | f # t # _ \<Rightarrow> (Some f, Some t))"

definition reverseKey :: "string \<Rightarrow> string" where
  "reverseKey key = (case endpoints key of (fromUser, toUser) \<Rightarrow> pairKey (tmpl toUser) (tmpl fromUser))"

text \<open>
  The netting loop over the keys of \<open>balances\<close>, with the \<open>processed\<close> set and the list
  built so far.
\<close>

fun simplifyLoop :: "jsnum obj \<Rightarrow> string list \<Rightarrow> string list \<Rightarrow> balance list \<Rightarrow> balance list" where
  "simplifyLoop balances [] processed out = out"
| "simplifyLoop balances (key # keys) processed out =
     (if key \<in> set processed \<or> reverseKey key \<in> set processed
      then simplifyLoop balances keys processed out
      else
        (let net = js_sub (or0 (map_of balances key)) (or0 (map_of balances (reverseKey key)))
         in simplifyLoop balances keys (reverseKey key # key # processed)
              (if js_gt (js_abs net) (Num (1 / 100))
               then out @
                 [\<lparr>from_user = (if js_gt net (Num 0) then fst (endpoints key) else snd (endpoints key)),
                   to_user = (if js_gt net (Num 0) then snd (endpoints key) else fst (endpoints key)),
                   net_amount = toFixed2 (js_abs net)\<rparr>]
               else out)))"

definition simplifiedBalances :: "expense list \<Rightarrow> settlement list \<Rightarrow> balance list" where
  "simplifiedBalances expenses settlements =
     (let balances = groupLedger expenses settlements
      in simplifyLoop balances (ownKeys balances) [] [])"

text \<open>
  The handler: the group identifier is validated by the \<open>uuid\<close> package's \<open>validate\<close>
  (a parameter here), the rows of the group are read, netted, and the endpoints are
  resolved to user records (\<open>userMap[id]\<close>, \<open>undefined\<close> for an identifier of no user).
\<close>

datatype failure = Status400 string | Status500 string

record user =
  user_id :: string
  user_name :: string
  user_email :: string

record membership =
  member_group_id :: string
  member_user_id :: string

record db =
  db_users :: "user list"
  db_group_members :: "membership list"
  db_expenses :: "expense list"
  db_settlements :: "settlement list"

record resolved_balance =
  rb_from_user :: "user option"
  rb_to_user :: "user option"
  rb_amount :: string

definition userMap :: "db \<Rightarrow> string \<Rightarrow> user option" where
  "userMap d i = find (\<lambda>u. user_id u = i) (db_users d)"

definition getGroupBalances :: "(string \<Rightarrow> bool) \<Rightarrow> db \<Rightarrow> string \<Rightarrow> failure + resolved_balance list" where
  "getGroupBalances isUUID d groupId =
     (if \<not> isUUID groupId then Inl (Status400 ''Invalid groupId'')
      else
        (let expenses = filter (\<lambda>e. expense_group_id e = groupId) (db_expenses d);
             settlements = filter (\<lambda>s. settlement_group_id s = groupId) (db_settlements d)
         in Inr (map (\<lambda>b. \<lparr>rb_from_user = userMap d (tmpl (from_user b)),
                               rb_to_user = userMap d (tmpl (to_user b)),
                               rb_amount = net_amount b\<rparr>)
                   (simplifiedBalances expenses settlements))))"

section \<open>getUserBalances\<close>

text \<open>
  The expense loop from one user's side: what the user owes a payer is added to the
  payer's entry, what somebody owes the user is subtracted from that member's entry.
\<close>

definition userAddSplit :: "string \<Rightarrow> string \<Rightarrow> jsnum obj \<Rightarrow> expense_split \<Rightarrow> jsnum obj" where
  "userAddSplit userId paid_by balances s =
     (if split_user_id s = userId \<and> paid_by \<noteq> userId
      then assign balances paid_by (js_add (or0 (map_of balances paid_by)) (split_amount s))
      else if paid_by = userId \<and> split_user_id s \<noteq> userId
      then assign balances (split_user_id s)
             (js_sub (or0 (map_of balances (split_user_id s))) (split_amount s))
      else balances)"

definition userAddExpense :: "string \<Rightarrow> jsnum obj \<Rightarrow> expense \<Rightarrow> jsnum obj" where
  "userAddExpense userId balances e =
     foldl (userAddSplit userId (expense_paid_by e)) balances (expense_splits e)"

text \<open>The settlement loop: both branches subtract the amount from the counterparty's entry.\<close>

definition userAddSettlement :: "string \<Rightarrow> jsnum obj \<Rightarrow> settlement \<Rightarrow> jsnum obj" where
  "userAddSettlement userId balances st =
     (if settlement_paid_by st = userId
      then assign balances (settlement_paid_to st)
             (js_sub (or0 (map_of balances (settlement_paid_to st))) (settlement_amount st))
      else if settlement_paid_to st = userId
      then assign balances (settlement_paid_by st)
             (js_sub (or0 (map_of balances (settlement_paid_by st))) (settlement_amount st))
      else balances)"

definition userLedger :: "string \<Rightarrow> expense list \<Rightarrow> settlement list \<Rightarrow> jsnum obj" where
  "userLedger userId expenses settlements =
     foldl (userAddSettlement userId) (foldl (userAddExpense userId) [] expenses) settlements"

record owe =
  owe_user :: string
  owe_amount :: string

text \<open>
  The partition loop: an entry above the tolerance goes to \<open>owes\<close> when it is positive
  and to \<open>owed\<close> otherwise.
\<close>

definition partitionStep :: "jsnum obj \<Rightarrow> owe list \<times> owe list \<Rightarrow> string \<Rightarrow> owe list \<times> owe list" where
  "partitionStep balances acc otherUserId =
     (case map_of balances otherUserId of
        None \<Rightarrow> acc
      | Some v \<Rightarrow>
          if js_gt (js_abs v) (Num (1 / 100))
          then (if js_gt v (Num 0)
                then (fst acc @ [\<lparr>owe_user = otherUserId, owe_amount = toFixed2 v\<rparr>], snd acc)
                else (fst acc, snd acc @ [\<lparr>owe_user = otherUserId, owe_amount = toFixed2 (js_abs v)\<rparr>]))
          else acc)"

definition owesOwed :: "jsnum obj \<Rightarrow> owe list \<times> owe list" where
  "owesOwed balances = foldl (partitionStep balances) ([], []) (ownKeys balances)"

subsection \<open>\<open>parseFloat\<close>\<close>

definition is_space :: "char \<Rightarrow> bool" where
  "is_space c = (c \<in> set [CHR '' '', CHR 0x09, CHR 0x0A, CHR 0x0B, CHR 0x0C, CHR 0x0D])"

text \<open>The exponent part \<open>e\<close>, \<open>e+\<close>, \<open>e-\<close> followed by digits; anything else counts as no exponent.\<close>

definition exponent :: "string \<Rightarrow> int" where
  "exponent r =
     (case r of
        [] \<Rightarrow> 0
      | c # r1 \<Rightarrow>
          if c = CHR ''e'' \<or> c = CHR ''E''
          then (case r1 of
                  [] \<Rightarrow> 0
                | d # r2 \<Rightarrow>
                    if d = CHR ''-'' then - int (nat_of_digits (takeWhile is_digit r2))
                    else if d = CHR ''+'' then int (nat_of_digits (takeWhile is_digit r2))
                    else int (nat_of_digits (takeWhile is_digit r1)))
          else 0)"

definition scale10 :: "rat \<Rightarrow> int \<Rightarrow> rat" where
  "scale10 m e = (if 0 \<le> e then m * 10 ^ nat e else m / 10 ^ nat (- e))"

text \<open>
  \<open>parseFloat\<close> of a string: leading white space is skipped, then the longest prefix that
  is a decimal literal (sign, digits, fraction, exponent, or \<open>Infinity\<close>) is read;
  \<open>NaN\<close> when there is none.
\<close>

definition parseFloat_str :: "string \<Rightarrow> jsnum" where
  "parseFloat_str s =
     (let t = dropWhile is_space s;
          neg = (t \<noteq> [] \<and> hd t = CHR ''-'');
          u = (if t \<noteq> [] \<and> (hd t = CHR ''-'' \<or> hd t = CHR ''+'') then tl t else t)
      in if take 8 u = ''Infinity'' then (if neg then NegInf else PosInf)
         else
           (let ip = takeWhile is_digit u;
                r1 = dropWhile is_digit u;
                dot = (r1 \<noteq> [] \<and> hd r1 = CHR ''.'');
                fp = (if dot then takeWhile is_digit (tl r1) else []);
                r2 = (if dot then dropWhile is_digit (tl r1) else r1)
            in if ip = [] \<and> fp = [] then NaN
               else Num ((if neg then - 1 else 1) *
                      scale10 (of_nat (nat_of_digits ip) + of_nat (nat_of_digits fp) / 10 ^ length fp)
                        (exponent r2))))"

text \<open>
  \<open>parseFloat\<close> of a value converts it to a string first. A number prints to a string
  that reads back as itself; \<open>undefined\<close>, \<open>null\<close>, a boolean and an object print as text
  that is no number; an array prints its elements separated by commas, so only its first
  element can be read.
\<close>

fun parseFloat :: "jsval \<Rightarrow> jsnum" where
  "parseFloat (JNum n) = n"
| "parseFloat (JStr s) = parseFloat_str s"
| "parseFloat (JArr (JArr vs # ws)) = parseFloat (JArr vs)"
| "parseFloat (JArr (JNum n # ws)) = n"
| "parseFloat (JArr (JStr s # ws)) = parseFloat_str s"
| "parseFloat v = NaN"

text \<open>
  The handler: the groups of the user, the rows of those groups, the two lists with
  their users resolved, and the totals. (\<open>Number\<close> is applied to the strings
  \<open>toFixed(2)\<close> printed, on which it agrees with \<open>parseFloat\<close>.)
\<close>

record resolved_owe =
  ro_user :: "user option"
  ro_amount :: string

record user_balances =
  owes :: "resolved_owe list"
  owed :: "resolved_owe list"
  total_owes :: string
  total_owed :: string

definition totalOf :: "owe list \<Rightarrow> string" where
  "totalOf xs = toFixed2 (foldl (\<lambda>s i. js_add s (parseFloat_str (owe_amount i))) (Num 0) xs)"

definition getUserBalances :: "(string \<Rightarrow> bool) \<Rightarrow> db \<Rightarrow> string \<Rightarrow> failure + user_balances" where
  "getUserBalances isUUID d userId =
     (if \<not> isUUID userId then Inl (Status400 ''Invalid userId'')
      else
        (let groupIds = map member_group_id (filter (\<lambda>m. member_user_id m = userId) (db_group_members d))
         in if length groupIds = 0
            then Inr \<lparr>owes = [], owed = [], total_owes = ''0.00'', total_owed = ''0.00''\<rparr>
            else
              (let expenses = filter (\<lambda>e. expense_group_id e \<in> set groupIds) (db_expenses d);
                   settlements = filter (\<lambda>s. settlement_group_id s \<in> set groupIds) (db_settlements d);
                   balances = userLedger userId expenses settlements;
                   resolve = map (\<lambda>i. \<lparr>ro_user = userMap d (owe_user i), ro_amount = owe_amount i\<rparr>)
               in Inr \<lparr>owes = resolve (fst (owesOwed balances)),
                        owed = resolve (snd (owesOwed balances)),
                        total_owes = totalOf (fst (owesOwed balances)),
                        total_owed = totalOf (snd (owesOwed balances))\<rparr>)))"

section \<open>createExpense and createSettlement\<close>

text \<open>
  The request body is a parsed JSON object: reading a property gives \<open>undefined\<close> when
  it is missing and the last value when the text repeated the key. The store is a
  collaborator: it receives the rows the controller hands over and numbers the expenses;
  it refuses nothing.
\<close>

definition bodyField :: "(string \<times> jsval) list \<Rightarrow> string \<Rightarrow> jsval" where
  "bodyField body k = (case map_of (rev body) k of None \<Rightarrow> JUndefined | Some v \<Rightarrow> v)"

text \<open>\<open>!v\<close>\<close>

fun falsy :: "jsval \<Rightarrow> bool" where
  "falsy JUndefined = True"
| "falsy JNull = True"
| "falsy (JBool b) = (b = False)"
| "falsy (JNum n) = (n = NaN \<or> n = Num 0)"
| "falsy (JStr s) = (s = [])"
| "falsy (JObj ps) = False"
| "falsy (JArr vs) = False"

text \<open>
  \<open>split.amount\<close> and the like on an element of \<open>splits\<close>: a \<open>TypeError\<close> on
  \<open>undefined\<close> and \<open>null\<close>, which the handler's \<open>catch\<close> answers with status 500; the
  property of an object; \<open>undefined\<close> on any other value.
\<close>

fun getProp :: "jsval \<Rightarrow> string \<Rightarrow> failure + jsval" where
  "getProp JUndefined k = Inl (Status500 ''Internal server error'')"
| "getProp JNull k = Inl (Status500 ''Internal server error'')"
| "getProp (JObj ps) k = Inr (bodyField ps k)"
| "getProp v k = Inr JUndefined"

text \<open>\<open>splits.reduce((sum, split) => sum + parseFloat(split[k]), 0)\<close>\<close>

fun sumProp :: "string \<Rightarrow> jsnum \<Rightarrow> jsval list \<Rightarrow> failure + jsnum" where
  "sumProp k acc [] = Inr acc"
| "sumProp k acc (x # xs) =
     (case getProp x k of
        Inl e \<Rightarrow> Inl e
      | Inr v \<Rightarrow> sumProp k (js_add acc (parseFloat v)) xs)"

fun mapE :: "('a \<Rightarrow> failure + 'b) \<Rightarrow> 'a list \<Rightarrow> failure + 'b list" where
  "mapE f [] = Inr []"
| "mapE f (x # xs) =
     (case f x of
        Inl e \<Rightarrow> Inl e
      | Inr y \<Rightarrow> (case mapE f xs of Inl e \<Rightarrow> Inl e | Inr ys \<Rightarrow> Inr (y # ys)))"

record calculated_split =
  cs_user_id :: jsval
  cs_amount :: string
  cs_percentage :: jsval

definition exactSplit :: "jsval \<Rightarrow> failure + calculated_split" where
  "exactSplit sp =
     (case getProp sp ''user_id'' of
        Inl e \<Rightarrow> Inl e
      | Inr u \<Rightarrow>
          (case getProp sp ''amount'' of
             Inl e \<Rightarrow> Inl e
           | Inr a \<Rightarrow> Inr \<lparr>cs_user_id = u, cs_amount = toFixed2 (parseFloat a), cs_percentage = JNull\<rparr>))"

definition percentageSplit :: "jsval \<Rightarrow> jsval \<Rightarrow> failure + calculated_split" where
  "percentageSplit amount sp =
     (case getProp sp ''user_id'' of
        Inl e \<Rightarrow> Inl e
      | Inr u \<Rightarrow>
          (case getProp sp ''percentage'' of
             Inl e \<Rightarrow> Inl e
           | Inr p \<Rightarrow>
               Inr \<lparr>cs_user_id = u,
                    cs_amount = toFixed2 (js_div (js_mul (parseFloat amount) (parseFloat p)) (Num 100)),
                    cs_percentage = JNum (parseFloat p)\<rparr>))"

text \<open>
  The three branches on \<open>split_type\<close>. A \<open>splits\<close> that is no array has no \<open>map\<close> and
  no \<open>reduce\<close>: the call throws and the handler answers with status 500.
\<close>

definition calculateSplits :: "jsval \<Rightarrow> jsval \<Rightarrow> jsval \<Rightarrow> failure + calculated_split list" where
  "calculateSplits amount split_type splits =
     (case splits of
        JArr xs \<Rightarrow>
          if split_type = JStr ''equal''
          then Inr (map (\<lambda>u. \<lparr>cs_user_id = u,
                               cs_amount = toFixed2 (js_div (parseFloat amount) (Num (of_nat (length xs)))),
                               cs_percentage = JNull\<rparr>) xs)
          else if split_type = JStr ''exact''
          then (case sumProp ''amount'' (Num 0) xs of
                  Inl e \<Rightarrow> Inl e
                | Inr totalSplit \<Rightarrow>
                    if js_gt (js_abs (js_sub totalSplit (parseFloat amount))) (Num (1 / 100))
                    then Inl (Status400 ''Sum of exact splits must equal total amount'')
                    else mapE exactSplit xs)
          else if split_type = JStr ''percentage''
          then (case sumProp ''percentage'' (Num 0) xs of
                  Inl e \<Rightarrow> Inl e
                | Inr totalPercentage \<Rightarrow>
                    if js_gt (js_abs (js_sub totalPercentage (Num 100))) (Num (1 / 100))
                    then Inl (Status400 ''Sum of percentages must equal 100'')
                    else mapE (percentageSplit amount) xs)
          else Inr []
      | _ \<Rightarrow> Inl (Status500 ''Internal server error''))"

record new_expense =
  ne_group_id :: jsval
  ne_description :: jsval
  ne_amount :: jsnum
  ne_paid_by :: jsval
  ne_split_type :: jsval

record new_split =
  ns_expense_id :: nat
  ns_user_id :: jsval
  ns_amount :: jsnum
  ns_percentage :: jsval

record new_settlement =
  nst_group_id :: jsval
  nst_paid_by :: jsval
  nst_paid_to :: jsval
  nst_amount :: jsnum

record tables =
  tbl_expenses :: "(nat \<times> new_expense) list"
  tbl_expense_splits :: "new_split list"
  tbl_settlements :: "new_settlement list"

definition createExpense :: "tables \<Rightarrow> (string \<times> jsval) list \<Rightarrow> (failure + nat \<times> new_expense) \<times> tables" where
  "createExpense t body =
     (let group_id = bodyField body ''group_id'';
          description = bodyField body ''description'';
          amount = bodyField body ''amount'';
          paid_by = bodyField body ''paid_by'';
          split_type = bodyField body ''split_type'';
          splits = bodyField body ''splits''
      in if falsy group_id \<or> falsy description \<or> falsy amount \<or> falsy paid_by \<or>
            falsy split_type \<or> falsy splits
         then (Inl (Status400 ''group_id, description, amount, paid_by, split_type, and splits are required''), t)
         else if split_type \<notin> set [JStr ''equal'', JStr ''exact'', JStr ''percentage'']
         then (Inl (Status400 ''split_type must be equal, exact, or percentage''), t)
         else
           (case calculateSplits amount split_type splits of
              Inl e \<Rightarrow> (Inl e, t)
            | Inr calculatedSplits \<Rightarrow>
                (let expense = (length (tbl_expenses t),
                       \<lparr>ne_group_id = group_id, ne_description = description,
                        ne_amount = parseFloat amount, ne_paid_by = paid_by,
                        ne_split_type = split_type\<rparr>);
                     expenseSplits = map (\<lambda>sp. \<lparr>ns_expense_id = fst expense,
                                                 ns_user_id = cs_user_id sp,
                                                 ns_amount = parseFloat_str (cs_amount sp),
                                                 ns_percentage = cs_percentage sp\<rparr>) calculatedSplits
                 in (Inr expense,
                     t\<lparr>tbl_expenses := tbl_expenses t @ [expense],
                       tbl_expense_splits := tbl_expense_splits t @ expenseSplits\<rparr>))))"

text \<open>
  \<open>a === b\<close> on two values of the body: two numbers unless \<open>NaN\<close>, two equal strings or
  booleans; two objects or arrays are never the same object.
\<close>

fun strict_eq :: "jsval \<Rightarrow> jsval \<Rightarrow> bool" where
  "strict_eq JUndefined JUndefined = True"
| "strict_eq JNull JNull = True"
| "strict_eq (JBool a) (JBool b) = (a = b)"
| "strict_eq (JNum a) (JNum b) = (a = b \<and> a \<noteq> NaN)"
| "strict_eq (JStr a) (JStr b) = (a = b)"
| "strict_eq a b = False"

definition createSettlement :: "tables \<Rightarrow> (string \<times> jsval) list \<Rightarrow> (failure + new_settlement) \<times> tables" where
  "createSettlement t body =
     (let group_id = bodyField body ''group_id'';
          paid_by = bodyField body ''paid_by'';
          paid_to = bodyField body ''paid_to'';
          amount = bodyField body ''amount''
      in if falsy group_id \<or> falsy paid_by \<or> falsy paid_to \<or> falsy amount
         then (Inl (Status400 ''group_id, paid_by, paid_to, and amount are required''), t)
         else if strict_eq paid_by paid_to
         then (Inl (Status400 ''paid_by and paid_to must be different users''), t)
         else if js_le (parseFloat amount) (Num 0)
         then (Inl (Status400 ''amount must be greater than 0''), t)
         else
           (let row = \<lparr>nst_group_id = group_id, nst_paid_by = paid_by, nst_paid_to = paid_to,
                       nst_amount = parseFloat amount\<rparr>
            in (Inr row, t\<lparr>tbl_settlements := tbl_settlements t @ [row]\<rparr>)))"

text \<open>
  The property \<open>k\<close> of an element of \<open>splits\<close> where reading it does not throw
  (\<open>undefined\<close> where it does), for stating what the branches compute.
\<close>

definition propOf :: "jsval \<Rightarrow> string \<Rightarrow> jsval" where
  "propOf x k = (case getProp x k of Inl e \<Rightarrow> JUndefined | Inr v \<Rightarrow> v)"

text \<open>
  Ledgers none of whose member identifiers contains the separator \<open>-\<close>, and the
  unordered pair of endpoints of an emitted edge.
\<close>

definition dashFree :: "string \<Rightarrow> bool" where
  "dashFree s = (CHR ''-'' \<notin> set s)"

definition ledgerDashFree :: "expense list \<Rightarrow> settlement list \<Rightarrow> bool" where
  "ledgerDashFree expenses settlements =
     (list_all (\<lambda>e. dashFree (expense_paid_by e) \<and>
                     list_all (\<lambda>s. dashFree (split_user_id s)) (expense_splits e)) expenses \<and>
      list_all (\<lambda>s. dashFree (settlement_paid_by s) \<and> dashFree (settlement_paid_to s)) settlements)"

definition upair :: "balance \<Rightarrow> string option set" where
  "upair e = {from_user e, to_user e}"

text \<open>A key built from two identifiers without separator.\<close>

definition goodKey :: "string \<Rightarrow> bool" where
  "goodKey k = (\<exists>a b. k = pairKey a b \<and> dashFree a \<and> dashFree b)"

text \<open>
  What the netting loop maintains on such keys: the edges emitted so far join distinct
  pairs of distinct members, and both keys of every emitted pair are in \<open>processed\<close>.
\<close>

definition loopInv :: "string list \<Rightarrow> balance list \<Rightarrow> bool" where
  "loopInv processed out =
     (distinct (map upair out) \<and>
      list_all (\<lambda>e. \<exists>a b. dashFree a \<and> dashFree b \<and> a \<noteq> b \<and>
                       upair e = {Some a, Some b} \<and>
                       pairKey a b \<in> set processed \<and> pairKey b a \<in> set processed) out)"

section \<open>The ledgers of the worked examples\<close>

text \<open>
  One expense: A pays 90, split equally among A, B and C (30.00 each); and the settlement
  "B pays A 30".
\<close>

definition dinner :: "expense list" where
  "dinner =
     [\<lparr>expense_group_id = ''g'', expense_paid_by = ''A'',
       expense_splits = [\<lparr>split_user_id = ''A'', split_amount = Num 30\<rparr>,
                         \<lparr>split_user_id = ''B'', split_amount = Num 30\<rparr>,
                         \<lparr>split_user_id = ''C'', split_amount = Num 30\<rparr>]\<rparr>]"

definition b_pays_a_30 :: settlement where
  "b_pays_a_30 =
     \<lparr>settlement_group_id = ''g'', settlement_paid_by = ''B'', settlement_paid_to = ''A'',
      settlement_amount = Num 30\<rparr>"

text \<open>The same ledger with the members identified by UUIDs, as the store's schema has them.\<close>

definition uuid_a :: string where
  "uuid_a = ''aaaaaaaa-0000-4000-8000-000000000001''"

definition uuid_b :: string where
  "uuid_b = ''bbbbbbbb-0000-4000-8000-000000000002''"

definition uuid_c :: string where
  "uuid_c = ''cccccccc-0000-4000-8000-000000000003''"

definition dinner_uuid :: "expense list" where
  "dinner_uuid =
     [\<lparr>expense_group_id = ''g'', expense_paid_by = uuid_a,
       expense_splits = [\<lparr>split_user_id = uuid_a, split_amount = Num 30\<rparr>,
                         \<lparr>split_user_id = uuid_b, split_amount = Num 30\<rparr>,
                         \<lparr>split_user_id = uuid_c, split_amount = Num 30\<rparr>]\<rparr>]"

definition b_pays_a_30_uuid :: settlement where
  "b_pays_a_30_uuid =
     \<lparr>settlement_group_id = ''g'', settlement_paid_by = uuid_b, settlement_paid_to = uuid_a,
      settlement_amount = Num 30\<rparr>"

text \<open>
  The walkthrough of the documentation: A pays 300, B pays 90, C pays 60, each split
  equally among A, B and C; and the settlement "C pays A 50".
\<close>

definition trip :: "expense list" where
  "trip =
     [\<lparr>expense_group_id = ''g'', expense_paid_by = ''A'',
       expense_splits = [\<lparr>split_user_id = ''A'', split_amount = Num 100\<rparr>,
                         \<lparr>split_user_id = ''B'', split_amount = Num 100\<rparr>,
                         \<lparr>split_user_id = ''C'', split_amount = Num 100\<rparr>]\<rparr>,
      \<lparr>expense_group_id = ''g'', expense_paid_by = ''B'',
       expense_splits = [\<lparr>split_user_id = ''A'', split_amount = Num 30\<rparr>,
                         \<lparr>split_user_id = ''B'', split_amount = Num 30\<rparr>,
                         \<lparr>split_user_id = ''C'', split_amount = Num 30\<rparr>]\<rparr>,
      \<lparr>expense_group_id = ''g'', expense_paid_by = ''C'',
       expense_splits = [\<lparr>split_user_id = ''A'', split_amount = Num 20\<rparr>,
                         \<lparr>split_user_id = ''B'', split_amount = Num 20\<rparr>,
                         \<lparr>split_user_id = ''C'', split_amount = Num 20\<rparr>]\<rparr>]"

definition c_pays_a_50 :: settlement where
  "c_pays_a_50 =
     \<lparr>settlement_group_id = ''g'', settlement_paid_by = ''C'', settlement_paid_to = ''A'',
      settlement_amount = Num 50\<rparr>"

section \<open>Evaluating the model\<close>

lemma cents_eqI:
  "of_nat n \<le> \<bar>x\<bar> * 100 + 1 / 2 \<Longrightarrow> \<bar>x\<bar> * 100 + 1 / 2 < of_nat n + 1 \<Longrightarrow> cents x = n"
  unfolding cents_def by (metis floor_unique nat_int of_int_of_nat_eq)

lemma cents_values:
  "cents 10 = 1000" "cents 20 = 2000" "cents 30 = 3000" "cents 60 = 6000" "cents 70 = 7000"
  "cents 80 = 8000" "cents 100 = 10000" "cents 130 = 13000" "cents 4 = 400"
  by (rule cents_eqI, simp, simp)+

lemma toFixed2_values:
  "toFixed2 (Num 10) = ''10.00''" "toFixed2 (Num 20) = ''20.00''" "toFixed2 (Num 30) = ''30.00''"
  "toFixed2 (Num 60) = ''60.00''" "toFixed2 (Num 70) = ''70.00''" "toFixed2 (Num 80) = ''80.00''"
  "toFixed2 (Num 100) = ''100.00''" "toFixed2 (Num 130) = ''130.00''" "toFixed2 (Num 4) = ''4.00''"
  by (simp_all add: cents_values show_nat.simps digit_char_def)

lemmas ledger_defs =
  groupLedger_def addExpense_def addSplit_def addSettlement_def pairKey_def js_sub_def

lemmas loop_defs =
  simplifiedBalances_def ownKeys_def is_array_index_def is_digit_def reverseKey_def
  endpoints_def pairKey_def js_sub_def

lemmas user_defs =
  userLedger_def userAddExpense_def userAddSplit_def userAddSettlement_def owesOwed_def
  partitionStep_def ownKeys_def is_array_index_def is_digit_def js_sub_def

lemmas parse_defs =
  parseFloat_str_def is_space_def is_digit_def nat_of_digits_def digit_val_def exponent_def
  scale10_def

lemma dinner_settled_group:
  "simplifiedBalances dinner [b_pays_a_30] =
     [\<lparr>from_user = Some ''B'', to_user = Some ''A'', net_amount = ''60.00''\<rparr>,
      \<lparr>from_user = Some ''C'', to_user = Some ''A'', net_amount = ''30.00''\<rparr>]"
  by (simp add: dinner_def b_pays_a_30_def ledger_defs loop_defs toFixed2_values del: toFixed2.simps)

lemma equal_split_of_90:
  "calculateSplits (JNum (Num 90)) (JStr ''equal'') (JArr [JStr ''A'', JStr ''B'', JStr ''C'']) =
     Inr [\<lparr>cs_user_id = JStr ''A'', cs_amount = ''30.00'', cs_percentage = JNull\<rparr>,
          \<lparr>cs_user_id = JStr ''B'', cs_amount = ''30.00'', cs_percentage = JNull\<rparr>,
          \<lparr>cs_user_id = JStr ''C'', cs_amount = ''30.00'', cs_percentage = JNull\<rparr>]"
  by (simp add: calculateSplits_def toFixed2_values del: toFixed2.simps)

section \<open>The worked examples of the specification\<close>

lemma dinner_uuid_settled_group:
  "simplifiedBalances dinner_uuid [b_pays_a_30_uuid] =
     [\<lparr>from_user = Some ''bbbbbbbb'', to_user = Some ''0000'', net_amount = ''30.00''\<rparr>,
      \<lparr>from_user = Some ''cccccccc'', to_user = Some ''0000'', net_amount = ''30.00''\<rparr>,
      \<lparr>from_user = Some ''0000'', to_user = Some ''aaaaaaaa'', net_amount = ''30.00''\<rparr>]"
  by (simp add: dinner_uuid_def b_pays_a_30_uuid_def uuid_a_def uuid_b_def uuid_c_def
      ledger_defs loop_defs toFixed2_values del: toFixed2.simps)

text \<open>
  Claim C1. With the single expense "A pays 90, split equally among A, B, C" and the
  single settlement "B pays A 30", the group balance is meant to be the one edge "C owes
  A 30.00". The equal split does give 30.00 to each of the three; but the settlement is
  subtracted from the entry \<open>A-B\<close>, which the netting of the pair \<open>B-A\<close> subtracts
  again, so B's debt doubles instead of vanishing: the result has two edges, "B owes A
  60.00" and "C owes A 30.00". With the three members identified by UUIDs the result is
  not the expected edge either: its edges join fragments of one identifier.
\<close>

theorem C1_settlement_doubles_the_debt:
  "calculateSplits (JNum (Num 90)) (JStr ''equal'') (JArr [JStr ''A'', JStr ''B'', JStr ''C'']) =
     Inr [\<lparr>cs_user_id = JStr ''A'', cs_amount = ''30.00'', cs_percentage = JNull\<rparr>,
          \<lparr>cs_user_id = JStr ''B'', cs_amount = ''30.00'', cs_percentage = JNull\<rparr>,
          \<lparr>cs_user_id = JStr ''C'', cs_amount = ''30.00'', cs_percentage = JNull\<rparr>]
   \<and> parseFloat_str ''30.00'' = Num 30
   \<and> groupLedger dinner [b_pays_a_30] = [(''B-A'', Num 30), (''C-A'', Num 30), (''A-B'', Num (- 30))]
   \<and> simplifiedBalances dinner [b_pays_a_30] =
       [\<lparr>from_user = Some ''B'', to_user = Some ''A'', net_amount = ''60.00''\<rparr>,
        \<lparr>from_user = Some ''C'', to_user = Some ''A'', net_amount = ''30.00''\<rparr>]
   \<and> simplifiedBalances dinner_uuid [b_pays_a_30_uuid] =
       [\<lparr>from_user = Some ''bbbbbbbb'', to_user = Some ''0000'', net_amount = ''30.00''\<rparr>,
        \<lparr>from_user = Some ''cccccccc'', to_user = Some ''0000'', net_amount = ''30.00''\<rparr>,
        \<lparr>from_user = Some ''0000'', to_user = Some ''aaaaaaaa'', net_amount = ''30.00''\<rparr>]"
proof -
  have "parseFloat_str ''30.00'' = Num 30"
    by (simp add: parse_defs)
  moreover have "groupLedger dinner [b_pays_a_30] =
      [(''B-A'', Num 30), (''C-A'', Num 30), (''A-B'', Num (- 30))]"
    by (simp add: dinner_def b_pays_a_30_def ledger_defs)
  ultimately show ?thesis
    using equal_split_of_90 dinner_settled_group dinner_uuid_settled_group by simp
qed

lemma trip_group:
  "simplifiedBalances trip [] =
     [\<lparr>from_user = Some ''B'', to_user = Some ''A'', net_amount = ''70.00''\<rparr>,
      \<lparr>from_user = Some ''C'', to_user = Some ''A'', net_amount = ''80.00''\<rparr>,
      \<lparr>from_user = Some ''C'', to_user = Some ''B'', net_amount = ''10.00''\<rparr>]"
  by (simp add: trip_def ledger_defs loop_defs toFixed2_values del: toFixed2.simps)

lemma trip_group_settled:
  "simplifiedBalances trip [c_pays_a_50] =
     [\<lparr>from_user = Some ''B'', to_user = Some ''A'', net_amount = ''70.00''\<rparr>,
      \<lparr>from_user = Some ''C'', to_user = Some ''A'', net_amount = ''130.00''\<rparr>,
      \<lparr>from_user = Some ''C'', to_user = Some ''B'', net_amount = ''10.00''\<rparr>]"
  by (simp add: trip_def c_pays_a_50_def ledger_defs loop_defs toFixed2_values del: toFixed2.simps)

lemma trip_equal_shares:
  "map (\<lambda>total. toFixed2 (js_div (parseFloat (JNum (Num total)))
          (Num (of_nat (length [JStr ''A'', JStr ''B'', JStr ''C''])))))
     [300, 90, 60] = [''100.00'', ''30.00'', ''20.00'']"
  by (simp add: toFixed2_values del: toFixed2.simps)

text \<open>
  Claim C3. The three expenses of the walkthrough (A pays 300, B pays 90, C pays 60, each
  split equally among A, B, C: shares 100.00, 30.00 and 20.00) net to "B owes A 70.00",
  "C owes A 80.00", "C owes B 10.00", as the claim says. After the settlement "C pays A
  50" the claim expects the edge from C to A to drop to 30.00; the code raises it to
  130.00 (the other two edges stay as they are).
\<close>

theorem C3_walkthrough_settlement_raises_the_edge:
  "map (\<lambda>total. toFixed2 (js_div (parseFloat (JNum (Num total)))
          (Num (of_nat (length [JStr ''A'', JStr ''B'', JStr ''C''])))))
     [300, 90, 60] = [''100.00'', ''30.00'', ''20.00'']
   \<and> simplifiedBalances trip [] =
       [\<lparr>from_user = Some ''B'', to_user = Some ''A'', net_amount = ''70.00''\<rparr>,
        \<lparr>from_user = Some ''C'', to_user = Some ''A'', net_amount = ''80.00''\<rparr>,
        \<lparr>from_user = Some ''C'', to_user = Some ''B'', net_amount = ''10.00''\<rparr>]
   \<and> simplifiedBalances trip [c_pays_a_50] =
       [\<lparr>from_user = Some ''B'', to_user = Some ''A'', net_amount = ''70.00''\<rparr>,
        \<lparr>from_user = Some ''C'', to_user = Some ''A'', net_amount = ''130.00''\<rparr>,
        \<lparr>from_user = Some ''C'', to_user = Some ''B'', net_amount = ''10.00''\<rparr>]"
  using trip_equal_shares trip_group trip_group_settled by simp

text \<open>
  Claim C2. On the ledger of claim C1 the group query reports "B owes A 60.00", while
  the user query of B reports nothing at all toward A (B's entry for A is 30 - 30 = 0):
  the two queries disagree on the pair. (The user query of A, the payee, agrees with the
  group query: it lists B as owing 60.00.)
\<close>

theorem C2_group_and_user_queries_disagree:
  "simplifiedBalances dinner [b_pays_a_30] =
     [\<lparr>from_user = Some ''B'', to_user = Some ''A'', net_amount = ''60.00''\<rparr>,
      \<lparr>from_user = Some ''C'', to_user = Some ''A'', net_amount = ''30.00''\<rparr>]
   \<and> userLedger ''B'' dinner [b_pays_a_30] = [(''A'', Num 0)]
   \<and> owesOwed (userLedger ''B'' dinner [b_pays_a_30]) = ([], [])
   \<and> owesOwed (userLedger ''A'' dinner [b_pays_a_30]) =
       ([], [\<lparr>owe_user = ''B'', owe_amount = ''60.00''\<rparr>,
             \<lparr>owe_user = ''C'', owe_amount = ''30.00''\<rparr>])"
proof -
  have "userLedger ''B'' dinner [b_pays_a_30] = [(''A'', Num 0)]"
    by (simp add: dinner_def b_pays_a_30_def user_defs)
  moreover have "owesOwed (userLedger ''B'' dinner [b_pays_a_30]) = ([], [])"
    by (simp add: dinner_def b_pays_a_30_def user_defs toFixed2_values del: toFixed2.simps)
  moreover have "owesOwed (userLedger ''A'' dinner [b_pays_a_30]) =
       ([], [\<lparr>owe_user = ''B'', owe_amount = ''60.00''\<rparr>,
             \<lparr>owe_user = ''C'', owe_amount = ''30.00''\<rparr>])"
    by (simp add: dinner_def b_pays_a_30_def user_defs toFixed2_values del: toFixed2.simps)
  ultimately show ?thesis
    using dinner_settled_group by simp
qed

section \<open>The two query handlers\<close>

text \<open>
  A malformed group identifier is refused; a group without history has no balances; a
  user in no group has empty lists and zero totals; and the handler run on the ledger of
  claim C1 resolves the two edges to the users' records.
\<close>

lemma getGroupBalances_invalid:
  "\<not> isUUID groupId \<Longrightarrow> getGroupBalances isUUID d groupId = Inl (Status400 ''Invalid groupId'')"
  by (simp add: getGroupBalances_def)

lemma getGroupBalances_no_history:
  assumes "isUUID groupId"
    and "filter (\<lambda>e. expense_group_id e = groupId) (db_expenses d) = []"
    and "filter (\<lambda>s. settlement_group_id s = groupId) (db_settlements d) = []"
  shows "getGroupBalances isUUID d groupId = Inr []"
  using assms
  by (simp add: getGroupBalances_def simplifiedBalances_def groupLedger_def ownKeys_def)

lemma getUserBalances_no_groups:
  assumes "isUUID userId"
    and "filter (\<lambda>m. member_user_id m = userId) (db_group_members d) = []"
  shows "getUserBalances isUUID d userId =
           Inr \<lparr>owes = [], owed = [], total_owes = ''0.00'', total_owed = ''0.00''\<rparr>"
  using assms by (simp add: getUserBalances_def)

lemma getGroupBalances_dinner:
  assumes "isUUID ''g''"
  shows "getGroupBalances isUUID
           \<lparr>db_users = [\<lparr>user_id = ''A'', user_name = ''Alice'', user_email = ''alice@example.com''\<rparr>,
                        \<lparr>user_id = ''B'', user_name = ''Bob'', user_email = ''bob@example.com''\<rparr>,
                        \<lparr>user_id = ''C'', user_name = ''Charlie'', user_email = ''charlie@example.com''\<rparr>],
            db_group_members = [\<lparr>member_group_id = ''g'', member_user_id = ''A''\<rparr>,
                                \<lparr>member_group_id = ''g'', member_user_id = ''B''\<rparr>,
                                \<lparr>member_group_id = ''g'', member_user_id = ''C''\<rparr>],
            db_expenses = dinner, db_settlements = [b_pays_a_30]\<rparr> ''g'' =
         Inr [\<lparr>rb_from_user = Some \<lparr>user_id = ''B'', user_name = ''Bob'', user_email = ''bob@example.com''\<rparr>,
               rb_to_user = Some \<lparr>user_id = ''A'', user_name = ''Alice'', user_email = ''alice@example.com''\<rparr>,
               rb_amount = ''60.00''\<rparr>,
              \<lparr>rb_from_user = Some \<lparr>user_id = ''C'', user_name = ''Charlie'', user_email = ''charlie@example.com''\<rparr>,
               rb_to_user = Some \<lparr>user_id = ''A'', user_name = ''Alice'', user_email = ''alice@example.com''\<rparr>,
               rb_amount = ''30.00''\<rparr>]"
proof -
  have "filter (\<lambda>e. expense_group_id e = ''g'') dinner = dinner"
    "filter (\<lambda>s. settlement_group_id s = ''g'') [b_pays_a_30] = [b_pays_a_30]"
    by (simp_all add: dinner_def b_pays_a_30_def)
  then show ?thesis
    using assms by (simp add: getGroupBalances_def dinner_settled_group userMap_def)
qed

section \<open>Pairs of members and string keys\<close>

text \<open>
  Claim C5. The output is meant to hold at most one edge for a pair of members. With two
  members whose identifiers contain the separator, \<open>x-y\<close> and \<open>y-x\<close>, each owing the
  other, the loop recovers the endpoints \<open>y\<close>, \<open>x\<close> from the first key and \<open>x\<close>, \<open>y\<close> from
  the second; neither key is the other's computed reverse, so both are emitted: an edge
  from \<open>y\<close> to \<open>x\<close> and an edge from \<open>x\<close> to \<open>y\<close>. With two members identified by UUIDs,
  as the store's schema has them, the pair likewise yields two edges instead of one
  netted edge, and their endpoints are fragments of the identifiers.
\<close>

theorem C5_both_directions_emitted:
  "simplifiedBalances
     [\<lparr>expense_group_id = ''g'', expense_paid_by = ''x-y'',
       expense_splits = [\<lparr>split_user_id = ''y-x'', split_amount = Num 10\<rparr>]\<rparr>,
      \<lparr>expense_group_id = ''g'', expense_paid_by = ''y-x'',
       expense_splits = [\<lparr>split_user_id = ''x-y'', split_amount = Num 4\<rparr>]\<rparr>] [] =
     [\<lparr>from_user = Some ''y'', to_user = Some ''x'', net_amount = ''10.00''\<rparr>,
      \<lparr>from_user = Some ''x'', to_user = Some ''y'', net_amount = ''4.00''\<rparr>]
   \<and> simplifiedBalances
     [\<lparr>expense_group_id = ''g'', expense_paid_by = ''22222222-2222-4222-8222-222222222222'',
       expense_splits = [\<lparr>split_user_id = ''11111111-1111-4111-8111-111111111111'',
                          split_amount = Num 10\<rparr>]\<rparr>,
      \<lparr>expense_group_id = ''g'', expense_paid_by = ''11111111-1111-4111-8111-111111111111'',
       expense_splits = [\<lparr>split_user_id = ''22222222-2222-4222-8222-222222222222'',
                          split_amount = Num 4\<rparr>]\<rparr>] [] =
     [\<lparr>from_user = Some ''11111111'', to_user = Some ''1111'', net_amount = ''10.00''\<rparr>,
      \<lparr>from_user = Some ''22222222'', to_user = Some ''2222'', net_amount = ''4.00''\<rparr>]"
  by (simp add: ledger_defs loop_defs toFixed2_values del: toFixed2.simps)

section \<open>The validation gateway of createExpense\<close>

lemma toFixed2_minus_5_2: "toFixed2 (Num (- (5 / 2))) = ''-2.50''"
proof -
  have "cents (- (5 / 2)) = 250"
    by (rule cents_eqI) simp_all
  then show ?thesis
    by (simp add: show_nat.simps digit_char_def)
qed

lemma parseFloat_minus_2_50: "parseFloat_str ''-2.50'' = Num (- (5 / 2))"
  by (simp add: parse_defs)

text \<open>
  Claim C6. An unknown split type is refused with status 400, but the other two cases of
  the claim are not: the required-field test \<open>!amount\<close> only catches a zero, so a
  negative amount passes it (createSettlement, next to it, does test
  \<open>parseFloat(amount) <= 0\<close>); and \<open>!splits\<close> is false for an empty array, so an equal
  split among nobody passes too. In both cases the expense row is handed to the store.
\<close>

theorem C6_negative_amount_and_empty_splits_accepted:
  "createExpense \<lparr>tbl_expenses = [], tbl_expense_splits = [], tbl_settlements = []\<rparr>
     [(''group_id'', JStr ''g''), (''description'', JStr ''Dinner''),
      (''amount'', JNum (Num (- 5))), (''paid_by'', JStr ''A''),
      (''split_type'', JStr ''equal''), (''splits'', JArr [JStr ''A'', JStr ''B''])] =
   (Inr (0, \<lparr>ne_group_id = JStr ''g'', ne_description = JStr ''Dinner'', ne_amount = Num (- 5),
              ne_paid_by = JStr ''A'', ne_split_type = JStr ''equal''\<rparr>),
    \<lparr>tbl_expenses =
       [(0, \<lparr>ne_group_id = JStr ''g'', ne_description = JStr ''Dinner'', ne_amount = Num (- 5),
              ne_paid_by = JStr ''A'', ne_split_type = JStr ''equal''\<rparr>)],
     tbl_expense_splits =
       [\<lparr>ns_expense_id = 0, ns_user_id = JStr ''A'', ns_amount = Num (- (5 / 2)),
         ns_percentage = JNull\<rparr>,
        \<lparr>ns_expense_id = 0, ns_user_id = JStr ''B'', ns_amount = Num (- (5 / 2)),
         ns_percentage = JNull\<rparr>],
     tbl_settlements = []\<rparr>)
   \<and> createExpense \<lparr>tbl_expenses = [], tbl_expense_splits = [], tbl_settlements = []\<rparr>
     [(''group_id'', JStr ''g''), (''description'', JStr ''Dinner''),
      (''amount'', JNum (Num 90)), (''paid_by'', JStr ''A''),
      (''split_type'', JStr ''equal''), (''splits'', JArr [])] =
   (Inr (0, \<lparr>ne_group_id = JStr ''g'', ne_description = JStr ''Dinner'', ne_amount = Num 90,
              ne_paid_by = JStr ''A'', ne_split_type = JStr ''equal''\<rparr>),
    \<lparr>tbl_expenses =
       [(0, \<lparr>ne_group_id = JStr ''g'', ne_description = JStr ''Dinner'', ne_amount = Num 90,
              ne_paid_by = JStr ''A'', ne_split_type = JStr ''equal''\<rparr>)],
     tbl_expense_splits = [],
     tbl_settlements = []\<rparr>)
   \<and> createSettlement \<lparr>tbl_expenses = [], tbl_expense_splits = [], tbl_settlements = []\<rparr>
     [(''group_id'', JStr ''g''), (''paid_by'', JStr ''B''), (''paid_to'', JStr ''A''),
      (''amount'', JNum (Num (- 5)))] =
   (Inl (Status400 ''amount must be greater than 0''),
    \<lparr>tbl_expenses = [], tbl_expense_splits = [], tbl_settlements = []\<rparr>)"
  by (simp add: createExpense_def createSettlement_def bodyField_def calculateSplits_def
      toFixed2_minus_5_2 parseFloat_minus_2_50 Let_def del: toFixed2.simps)

section \<open>Settlements in getUserBalances\<close>

lemma map_of_assign: "map_of (assign b k v) k' = (if k' = k then Some v else map_of b k')"
  by (induction b) auto


lemma or0_Num_sub: "or0 v = Num b \<Longrightarrow> js_sub (or0 v) (Num a) = Num (b - a)"
  by (simp add: js_sub_def)





section \<open>Recovering the two members from a key\<close>

lemma js_split_nonempty: "js_split c s \<noteq> []"
  by (induction s) (auto split: list.splits)

lemma js_split_append: "js_split c (a @ c # b) = js_split c a @ js_split c b"
proof (induction a)
  case Nil
  then show ?case by simp
next
  case (Cons x a)
  then show ?case
    using js_split_nonempty [of c a] by (cases "js_split c a") auto
qed

lemma js_split_no_sep: "c \<notin> set s \<Longrightarrow> js_split c s = [s]"
  by (induction s) auto

lemma hd_js_split: "hd (js_split c s) = takeWhile (\<lambda>x. x \<noteq> c) s"
proof (induction s)
  case Nil
  then show ?case by simp
next
  case (Cons x s)
  then show ?case
    using js_split_nonempty [of c s] by (cases "js_split c s") auto
qed

lemma js_split_sep_two: "c \<in> set s \<Longrightarrow> \<exists>f t r. js_split c s = f # t # r"
proof (induction s)
  case Nil
  then show ?case by simp
next
  case (Cons x s)
  show ?case
  proof (cases "x = c")
    case True
    then show ?thesis
      using js_split_nonempty [of c s] by (cases "js_split c s") auto
  next
    case False
    with Cons obtain f t r where "js_split c s = f # t # r" by auto
    with False show ?thesis by simp
  qed
qed

lemma js_split_length: "sum_list (map length (js_split c s)) + length (js_split c s) = Suc (length s)"
proof (induction s)
  case Nil
  then show ?case by simp
next
  case (Cons x s)
  then show ?case
    using js_split_nonempty [of c s] by (cases "js_split c s") auto
qed

lemma takeWhile_neq_self: "(takeWhile (\<lambda>x. x \<noteq> c) s = s) = (c \<notin> set s)"
  by (induction s) auto

lemma endpoints_pairKey:
  "endpoints (pairKey ower payer) =
     (if CHR ''-'' \<in> set ower then endpoints ower
      else (Some ower, Some (takeWhile (\<lambda>x. x \<noteq> CHR ''-'') payer)))"
proof (cases "CHR ''-'' \<in> set ower")
  case True
  then obtain f t r where "js_split CHR ''-'' ower = f # t # r"
    using js_split_sep_two by blast
  then show ?thesis
    using True by (simp add: endpoints_def pairKey_def js_split_append)
next
  case False
  then have "js_split CHR ''-'' ower = [ower]"
    by (rule js_split_no_sep)
  moreover obtain f r where fr: "js_split CHR ''-'' payer = f # r"
    using js_split_nonempty [of "CHR ''-''" payer] by (cases "js_split CHR ''-'' payer") auto
  moreover from fr have "f = takeWhile (\<lambda>x. x \<noteq> CHR ''-'') payer"
    using hd_js_split [of "CHR ''-''" payer] by simp
  ultimately show ?thesis
    using False by (simp add: endpoints_def pairKey_def js_split_append)
qed

lemma endpoints_short:
  assumes "CHR ''-'' \<in> set s" and "endpoints s = (f, t)"
  shows "length (tmpl t) + length (tmpl f) < length s" (is ?short) and "f \<noteq> Some s" (is ?ne)
proof -
  obtain a b r where abr: "js_split CHR ''-'' s = a # b # r"
    using assms(1) js_split_sep_two by blast
  then have ft: "f = Some a" "t = Some b"
    using assms(2) by (simp_all add: endpoints_def)
  have "sum_list (map length (a # b # r)) + length (a # b # r) = Suc (length s)"
    using js_split_length [of "CHR ''-''" s] abr by simp
  then have *: "length a + length b + 1 \<le> length s"
    by simp
  then show ?short using ft by simp
  from * show ?ne using ft by auto
qed

lemma endpoints_recovered_iff:
  "(endpoints (pairKey ower payer) = (Some ower, Some payer))
     = (CHR ''-'' \<notin> set ower \<and> CHR ''-'' \<notin> set payer)
   \<and> (reverseKey (pairKey ower payer) = pairKey payer ower)
     = (CHR ''-'' \<notin> set ower \<and> CHR ''-'' \<notin> set payer)
   \<and> endpoints (pairKey ower payer) =
       (if CHR ''-'' \<in> set ower then endpoints ower
        else (Some ower, Some (takeWhile (\<lambda>x. x \<noteq> CHR ''-'') payer)))"
proof (intro conjI)
  show 1: "(endpoints (pairKey ower payer) = (Some ower, Some payer))
     = (CHR ''-'' \<notin> set ower \<and> CHR ''-'' \<notin> set payer)"
  proof (cases "CHR ''-'' \<in> set ower")
    case True
    obtain f t where ft: "endpoints ower = (f, t)" by (cases "endpoints ower")
    with True have "f \<noteq> Some ower" by (rule endpoints_short(2))
    with True ft show ?thesis by (simp add: endpoints_pairKey)
  next
    case False
    then show ?thesis by (auto simp add: endpoints_pairKey takeWhile_neq_self)
  qed
  show "(reverseKey (pairKey ower payer) = pairKey payer ower)
     = (CHR ''-'' \<notin> set ower \<and> CHR ''-'' \<notin> set payer)"
  proof (cases "CHR ''-'' \<in> set ower")
    case True
    obtain f t where ft: "endpoints ower = (f, t)" by (cases "endpoints ower")
    with True have "length (tmpl t) + length (tmpl f) < length ower" by (rule endpoints_short(1))
    moreover have "reverseKey (pairKey ower payer) = pairKey (tmpl t) (tmpl f)"
      using True ft by (simp add: reverseKey_def endpoints_pairKey)
    ultimately have "length (reverseKey (pairKey ower payer)) < length (pairKey payer ower)"
      by (simp add: pairKey_def)
    then have "reverseKey (pairKey ower payer) \<noteq> pairKey payer ower" by auto
    with True show ?thesis by simp
  next
    case False
    then have "reverseKey (pairKey ower payer) =
        pairKey (takeWhile (\<lambda>x. x \<noteq> CHR ''-'') payer) ower"
      by (simp add: reverseKey_def endpoints_pairKey)
    then show ?thesis
      using False takeWhile_neq_self [of "CHR ''-''" payer] by (simp add: pairKey_def)
  qed
  show "endpoints (pairKey ower payer) =
       (if CHR ''-'' \<in> set ower then endpoints ower
        else (Some ower, Some (takeWhile (\<lambda>x. x \<noteq> CHR ''-'') payer)))"
    by (rule endpoints_pairKey)
qed

lemma uuid_mutual_debts:
  "simplifiedBalances
     [\<lparr>expense_group_id = ''g'', expense_paid_by = ''22222222-2222-4222-8222-222222222222'',
       expense_splits = [\<lparr>split_user_id = ''11111111-1111-4111-8111-111111111111'',
                          split_amount = Num 10\<rparr>]\<rparr>,
      \<lparr>expense_group_id = ''g'', expense_paid_by = ''11111111-1111-4111-8111-111111111111'',
       expense_splits = [\<lparr>split_user_id = ''22222222-2222-4222-8222-222222222222'',
                          split_amount = Num 10\<rparr>]\<rparr>] [] =
     [\<lparr>from_user = Some ''11111111'', to_user = Some ''1111'', net_amount = ''10.00''\<rparr>,
      \<lparr>from_user = Some ''22222222'', to_user = Some ''2222'', net_amount = ''10.00''\<rparr>]"
  by (simp add: ledger_defs loop_defs toFixed2_values del: toFixed2.simps)

text \<open>
  Claim C9. The key of an entry is \<open>ower-payer\<close>, and the loop takes the first two
  fragments of the key cut at every \<open>-\<close>. Those two fragments are the ower and the payer
  if and only if neither identifier contains \<open>-\<close>, and the key the loop nets against is
  the key of the opposite direction, \<open>payer-ower\<close>, under the same condition only. When
  the ower's identifier contains \<open>-\<close>, both fragments are cut from that one identifier,
  whatever the payer is. Two members identified by UUIDs who owe each other 10 are
  therefore not netted: each direction is emitted as an edge of its own, between fragments
  of one identifier.
\<close>

theorem C9_endpoints_recovered_iff_no_separator:
  "(endpoints (pairKey ower payer) = (Some ower, Some payer))
     = (CHR ''-'' \<notin> set ower \<and> CHR ''-'' \<notin> set payer)
   \<and> (reverseKey (pairKey ower payer) = pairKey payer ower)
     = (CHR ''-'' \<notin> set ower \<and> CHR ''-'' \<notin> set payer)
   \<and> endpoints (pairKey ower payer) =
       (if CHR ''-'' \<in> set ower then endpoints ower
        else (Some ower, Some (takeWhile (\<lambda>x. x \<noteq> CHR ''-'') payer)))
   \<and> simplifiedBalances
     [\<lparr>expense_group_id = ''g'', expense_paid_by = ''22222222-2222-4222-8222-222222222222'',
       expense_splits = [\<lparr>split_user_id = ''11111111-1111-4111-8111-111111111111'',
                          split_amount = Num 10\<rparr>]\<rparr>,
      \<lparr>expense_group_id = ''g'', expense_paid_by = ''11111111-1111-4111-8111-111111111111'',
       expense_splits = [\<lparr>split_user_id = ''22222222-2222-4222-8222-222222222222'',
                          split_amount = Num 10\<rparr>]\<rparr>] [] =
     [\<lparr>from_user = Some ''11111111'', to_user = Some ''1111'', net_amount = ''10.00''\<rparr>,
      \<lparr>from_user = Some ''22222222'', to_user = Some ''2222'', net_amount = ''10.00''\<rparr>]"
  using endpoints_recovered_iff [of ower payer] uuid_mutual_debts by (intro conjI) blast+

section \<open>Netting when no identifier contains the separator\<close>

lemma keys_assign:
  "map fst (assign b k v) = (if k \<in> set (map fst b) then map fst b else map fst b @ [k])"
  by (induction b) force+

lemma goodKey_pairKey: "dashFree a \<Longrightarrow> dashFree b \<Longrightarrow> goodKey (pairKey a b)"
  unfolding goodKey_def by blast

lemma good_assign:
  "list_all goodKey (map fst b) \<Longrightarrow> goodKey k \<Longrightarrow> list_all goodKey (map fst (assign b k v))"
  by (simp add: keys_assign)

lemma keys_addSplit:
  assumes "list_all goodKey (map fst b)" "dashFree p" "dashFree (split_user_id s)"
  shows "list_all goodKey (map fst (addSplit p b s))"
  unfolding addSplit_def Let_def using assms by (simp add: good_assign goodKey_pairKey)

lemma keys_addSplits:
  assumes "list_all goodKey (map fst b)" "dashFree p" "list_all (\<lambda>s. dashFree (split_user_id s)) ss"
  shows "list_all goodKey (map fst (foldl (addSplit p) b ss))"
  using assms
proof (induction ss arbitrary: b)
  case Nil
  then show ?case by simp
next
  case (Cons s ss)
  have "list_all goodKey (map fst (addSplit p b s))"
    using Cons.prems by (intro keys_addSplit) simp_all
  then show ?case
    using Cons.IH [of "addSplit p b s"] Cons.prems by simp
qed

lemma keys_addExpenses:
  assumes "list_all goodKey (map fst b)"
    and "list_all (\<lambda>e. dashFree (expense_paid_by e) \<and>
                     list_all (\<lambda>s. dashFree (split_user_id s)) (expense_splits e)) es"
  shows "list_all goodKey (map fst (foldl addExpense b es))"
  using assms
proof (induction es arbitrary: b)
  case Nil
  then show ?case by simp
next
  case (Cons e es)
  have "list_all goodKey (map fst (addExpense b e))"
    unfolding addExpense_def using Cons.prems by (intro keys_addSplits) simp_all
  then show ?case
    using Cons.IH [of "addExpense b e"] Cons.prems by simp
qed

lemma keys_addSettlements:
  assumes "list_all goodKey (map fst b)"
    and "list_all (\<lambda>s. dashFree (settlement_paid_by s) \<and> dashFree (settlement_paid_to s)) ss"
  shows "list_all goodKey (map fst (foldl addSettlement b ss))"
  using assms
proof (induction ss arbitrary: b)
  case Nil
  then show ?case by simp
next
  case (Cons s ss)
  have "list_all goodKey (map fst (addSettlement b s))"
    unfolding addSettlement_def Let_def using Cons.prems by (simp add: good_assign goodKey_pairKey)
  then show ?case
    using Cons.IH [of "addSettlement b s"] Cons.prems by simp
qed

lemma keys_groupLedger:
  assumes "ledgerDashFree expenses settlements"
  shows "list_all goodKey (map fst (groupLedger expenses settlements))"
proof -
  have "list_all goodKey (map fst (foldl addExpense [] expenses))"
    using assms by (intro keys_addExpenses) (simp_all add: ledgerDashFree_def)
  then show ?thesis
    unfolding groupLedger_def using assms by (intro keys_addSettlements) (simp_all add: ledgerDashFree_def)
qed

lemma good_ownKeys: "list_all goodKey (map fst b) \<Longrightarrow> list_all goodKey (ownKeys b)"
  by (auto simp: ownKeys_def list_all_iff)

lemma same_key_not_emitted: "\<not> js_gt (js_abs (js_sub x x)) (Num (1 / 100))"
  by (cases x) (simp_all add: js_sub_def)

lemma dashFree_endpoints:
  assumes "dashFree a" "dashFree b"
  shows "endpoints (pairKey a b) = (Some a, Some b)" and "reverseKey (pairKey a b) = pairKey b a"
  using assms endpoints_recovered_iff [of a b] unfolding dashFree_def by blast+

lemma pairKey_inject:
  assumes "dashFree a" "dashFree b" "dashFree a'" "dashFree b'" "pairKey a b = pairKey a' b'"
  shows "a = a' \<and> b = b'"
proof -
  have "endpoints (pairKey a b) = (Some a, Some b)"
    using assms(1,2) by (rule dashFree_endpoints)
  moreover have "endpoints (pairKey a b) = (Some a', Some b')"
    unfolding assms(5) using assms(3,4) by (rule dashFree_endpoints)
  ultimately have "(Some a, Some b) = (Some a', Some b')"
    by (rule trans [OF sym])
  then show ?thesis by simp
qed

lemma loopInv_mono:
  assumes "loopInv processed out" "set processed \<subseteq> set processed'"
  shows "loopInv processed' out"
  using assms unfolding loopInv_def list_all_iff by blast

lemma loopInv_emit:
  assumes inv: "loopInv processed out"
    and ab: "dashFree a" "dashFree b" "a \<noteq> b"
    and new: "pairKey a b \<notin> set processed"
    and e: "upair e = {Some a, Some b}"
  shows "loopInv (pairKey b a # pairKey a b # processed) (out @ [e])"
proof -
  have "upair e \<notin> set (map upair out)"
  proof
    assume "upair e \<in> set (map upair out)"
    then obtain e' where e': "e' \<in> set out" "upair e' = upair e"
      by auto
    with inv obtain a' b' where ab': "upair e' = {Some a', Some b'}"
      "pairKey a' b' \<in> set processed" "pairKey b' a' \<in> set processed"
      unfolding loopInv_def list_all_iff by blast
    from ab'(1) e'(2) e have "{Some a', Some b'} = {Some a, Some b}"
      by simp
    then have "(a' = a \<and> b' = b) \<or> (a' = b \<and> b' = a)"
      by (auto simp: doubleton_eq_iff)
    with ab'(2,3) have "pairKey a b \<in> set processed"
      by auto
    with new show False
      by simp
  qed
  moreover have "distinct (map upair out)"
    using inv by (simp add: loopInv_def)
  ultimately have 1: "distinct (map upair (out @ [e]))"
    by simp
  have "loopInv (pairKey b a # pairKey a b # processed) out"
    using inv by (rule loopInv_mono) auto
  then have 2: "list_all (\<lambda>e. \<exists>a' b'. dashFree a' \<and> dashFree b' \<and> a' \<noteq> b' \<and>
                       upair e = {Some a', Some b'} \<and>
                       pairKey a' b' \<in> set (pairKey b a # pairKey a b # processed) \<and>
                       pairKey b' a' \<in> set (pairKey b a # pairKey a b # processed)) out"
    by (simp add: loopInv_def)
  have 3: "\<exists>a' b'. dashFree a' \<and> dashFree b' \<and> a' \<noteq> b' \<and>
                       upair e = {Some a', Some b'} \<and>
                       pairKey a' b' \<in> set (pairKey b a # pairKey a b # processed) \<and>
                       pairKey b' a' \<in> set (pairKey b a # pairKey a b # processed)"
    using ab e by (intro exI [of _ a] exI [of _ b]) simp
  from 1 2 3 show ?thesis
    by (simp add: loopInv_def)
qed

lemma simplifyLoop_inv:
  assumes "list_all goodKey keys" "loopInv processed out"
  shows "\<exists>processed'. loopInv processed' (simplifyLoop balances keys processed out)"
  using assms
proof (induction keys arbitrary: processed out)
  case Nil
  then show ?case by auto
next
  case (Cons key keys)
  from Cons.prems(1) obtain a b where key: "key = pairKey a b" and ab: "dashFree a" "dashFree b"
    by (auto simp: goodKey_def)
  have ep: "endpoints key = (Some a, Some b)" and rk: "reverseKey key = pairKey b a"
    unfolding key using ab by (rule dashFree_endpoints)+
  have keys: "list_all goodKey keys"
    using Cons.prems(1) by simp
  show ?case
  proof (cases "key \<in> set processed \<or> reverseKey key \<in> set processed")
    case True
    then show ?thesis
      using Cons.IH [OF keys Cons.prems(2)] by simp
  next
    case False
    let ?net = "js_sub (or0 (map_of balances key)) (or0 (map_of balances (reverseKey key)))"
    let ?p = "reverseKey key # key # processed"
    show ?thesis
    proof (cases "js_gt (js_abs ?net) (Num (1 / 100))")
      case emit: True
      let ?e = "\<lparr>from_user = (if js_gt ?net (Num 0) then fst (endpoints key) else snd (endpoints key)),
                 to_user = (if js_gt ?net (Num 0) then snd (endpoints key) else fst (endpoints key)),
                 net_amount = toFixed2 (js_abs ?net)\<rparr>"
      have "a \<noteq> b"
      proof
        assume "a = b"
        with rk key have "reverseKey key = key"
          by simp
        with emit show False
          by (simp add: same_key_not_emitted)
      qed
      moreover have "upair ?e = {Some a, Some b}"
        by (auto simp: upair_def ep)
      moreover have "pairKey a b \<notin> set processed"
        using False by (simp add: key)
      ultimately have "loopInv (pairKey b a # pairKey a b # processed) (out @ [?e])"
        using Cons.prems(2) ab by (intro loopInv_emit) simp_all
      moreover have "?p = pairKey b a # pairKey a b # processed"
        unfolding rk by (simp add: key)
      ultimately have "loopInv ?p (out @ [?e])"
        by (simp only:)
      from Cons.IH [OF keys this] show ?thesis
        using False emit by (simp add: Let_def del: toFixed2.simps)
    next
      case skip: False
      have "loopInv ?p out"
        using Cons.prems(2) by (rule loopInv_mono) auto
      from Cons.IH [OF keys this] show ?thesis
        using False skip by (simp add: Let_def)
    qed
  qed
qed

text \<open>
  When no member identifier contains \<open>-\<close>, every unordered pair of members has at most
  one edge in the result, and no two edges are opposite to each other.
\<close>

lemma one_edge_per_pair_without_separator:
  assumes "ledgerDashFree expenses settlements"
  shows "distinct (map upair (simplifiedBalances expenses settlements))"
    and "e1 \<in> set (simplifiedBalances expenses settlements) \<Longrightarrow>
         e2 \<in> set (simplifiedBalances expenses settlements) \<Longrightarrow>
         \<not> (from_user e1 = to_user e2 \<and> to_user e1 = from_user e2)"
proof -
  let ?b = "groupLedger expenses settlements"
  have k: "list_all goodKey (ownKeys ?b)"
    using assms by (intro good_ownKeys keys_groupLedger)
  have i: "loopInv [] []"
    by (simp add: loopInv_def)
  from simplifyLoop_inv [OF k i, of ?b]
  obtain p where "loopInv p (simplifyLoop ?b (ownKeys ?b) [] [])"
    by blast
  then have inv: "loopInv p (simplifiedBalances expenses settlements)"
    by (simp add: simplifiedBalances_def Let_def)
  then show d: "distinct (map upair (simplifiedBalances expenses settlements))"
    by (simp add: loopInv_def)
  assume e1: "e1 \<in> set (simplifiedBalances expenses settlements)"
    and e2: "e2 \<in> set (simplifiedBalances expenses settlements)"
  show "\<not> (from_user e1 = to_user e2 \<and> to_user e1 = from_user e2)"
  proof
    assume opp: "from_user e1 = to_user e2 \<and> to_user e1 = from_user e2"
    then have "upair e1 = upair e2"
      unfolding upair_def by (simp add: insert_commute)
    with d e1 e2 have "e1 = e2"
      by (meson distinct_map inj_onD)
    with opp have loop: "from_user e1 = to_user e1"
      by blast
    from inv e1 obtain a b where ab: "a \<noteq> b" "upair e1 = {Some a, Some b}"
      unfolding loopInv_def list_all_iff by blast
    from ab(2) have "{to_user e1} = {Some a, Some b}"
      unfolding upair_def loop by simp
    then have "Some a = Some b"
      by (metis doubleton_eq_iff insert_absorb2)
    with ab(1) show False
      by simp
  qed
qed

text \<open>
  What a settlement does to the net of its pair in the group query: when P pays Q the
  amount \<open>a\<close>, the net debt of P toward Q grows by \<open>a\<close>.
\<close>

lemma settlement_raises_net:
  assumes "dashFree p" "dashFree q" "p \<noteq> q"
    and "settlement_paid_by st = p" "settlement_paid_to st = q" "settlement_amount st = Num a"
    and "or0 (map_of balances (pairKey p q)) = Num x"
    and "or0 (map_of balances (pairKey q p)) = Num y"
  shows "js_sub (or0 (map_of (addSettlement balances st) (pairKey p q)))
                (or0 (map_of (addSettlement balances st) (pairKey q p))) = Num (x - y + a)"
proof -
  have ne: "pairKey p q \<noteq> pairKey q p"
    using pairKey_inject [of p q q p] assms(1-3) by blast
  have "addSettlement balances st = assign balances (pairKey q p) (Num (y - a))"
    using assms(4-6,8) by (simp add: addSettlement_def js_sub_def)
  then show ?thesis
    using ne assms(7) by (simp add: map_of_assign js_sub_def)
qed

section \<open>Printing and reading amounts\<close>

lemma digit_table:
  "list_all (\<lambda>n. is_digit (''0123456789'' ! n) \<and> digit_val (''0123456789'' ! n) = n) [0..<10]"
proof -
  have "[0..<10] = [0, 1, 2, 3, 4, 5, 6, 7, 8, 9 :: nat]"
    by (simp add: upt_rec)
  then show ?thesis
    by (simp add: is_digit_def digit_val_def)
qed

lemma digit_facts:
  assumes "n < 10"
  shows "is_digit (''0123456789'' ! n)" and "digit_val (''0123456789'' ! n) = n"
proof -
  from assms have "n \<in> set [0..<10]"
    by simp
  with digit_table have "is_digit (''0123456789'' ! n) \<and> digit_val (''0123456789'' ! n) = n"
    unfolding list_all_iff by blast
  then show "is_digit (''0123456789'' ! n)" and "digit_val (''0123456789'' ! n) = n"
    by simp_all
qed

lemma is_digit_digit_char [simp]: "is_digit (digit_char d)"
  by (simp add: digit_char_def digit_facts)

lemma digit_val_digit_char [simp]: "digit_val (digit_char d) = d mod 10"
  by (simp add: digit_char_def digit_facts)

lemma nat_of_digits_snoc: "nat_of_digits (s @ [c]) = 10 * nat_of_digits s + digit_val c"
  by (simp add: nat_of_digits_def)

lemma show_nat_digits: "list_all is_digit (show_nat n)"
  by (induction n rule: show_nat.induct) (subst show_nat.simps, simp)

lemma show_nat_nonempty: "show_nat n \<noteq> []"
  by (subst show_nat.simps) simp

lemma nat_of_digits_show_nat: "nat_of_digits (show_nat n) = n"
proof (induction n rule: show_nat.induct)
  case (1 n)
  show ?case
  proof (cases "n < 10")
    case True
    then show ?thesis
      by (subst show_nat.simps) (simp add: nat_of_digits_def)
  next
    case False
    with 1 show ?thesis
      by (subst show_nat.simps) (simp add: nat_of_digits_snoc)
  qed
qed

lemma is_digit_not_special:
  assumes "is_digit c"
  shows "\<not> is_space c" "c \<noteq> CHR ''-''" "c \<noteq> CHR ''+''" "c \<noteq> CHR ''I''" "c \<noteq> CHR ''.''"
  using assms by (auto simp: is_digit_def is_space_def)

lemma takeWhile_digits_dot:
  "list_all is_digit ds \<Longrightarrow> takeWhile is_digit (ds @ CHR ''.'' # r) = ds"
  "list_all is_digit ds \<Longrightarrow> dropWhile is_digit (ds @ CHR ''.'' # r) = CHR ''.'' # r"
  by (induction ds) (auto simp: is_digit_def)

text \<open>Reading back an unsigned fixed-point literal.\<close>

lemma parse_unsigned:
  assumes "list_all is_digit ds" "ds \<noteq> []" "is_digit d1" "is_digit d0"
  shows "parseFloat_str (ds @ CHR ''.'' # [d1, d0]) =
           Num (of_nat (nat_of_digits ds) + of_nat (nat_of_digits [d1, d0]) / 100)"
proof -
  obtain c cs where ds: "ds = c # cs" using assms(2) by (cases ds) auto
  with assms(1) have c: "is_digit c" by simp
  have 1: "dropWhile is_space (ds @ CHR ''.'' # [d1, d0]) = ds @ CHR ''.'' # [d1, d0]"
    using ds is_digit_not_special(1) [OF c] by simp
  have 2: "take 8 (ds @ CHR ''.'' # [d1, d0]) \<noteq> ''Infinity''"
    using ds is_digit_not_special(4) [OF c] by simp
  have 3: "hd (ds @ CHR ''.'' # [d1, d0]) = c" using ds by simp
  have 4: "takeWhile is_digit (ds @ CHR ''.'' # [d1, d0]) = ds"
    "dropWhile is_digit (ds @ CHR ''.'' # [d1, d0]) = CHR ''.'' # [d1, d0]"
    using assms(1) by (rule takeWhile_digits_dot)+
  show ?thesis
    unfolding parseFloat_str_def Let_def 1
    using 2 3 is_digit_not_special(2,3) [OF c] assms(2,3,4)
    by (simp add: 4 exponent_def scale10_def)
qed

lemma parse_signed:
  assumes "list_all is_digit ds" "ds \<noteq> []" "is_digit d1" "is_digit d0"
  shows "parseFloat_str (CHR ''-'' # ds @ CHR ''.'' # [d1, d0]) =
           Num (- (of_nat (nat_of_digits ds) + of_nat (nat_of_digits [d1, d0]) / 100))"
proof -
  obtain c cs where ds: "ds = c # cs" using assms(2) by (cases ds) auto
  with assms(1) have c: "is_digit c" by simp
  have 1: "dropWhile is_space (CHR ''-'' # ds @ CHR ''.'' # [d1, d0]) = CHR ''-'' # ds @ CHR ''.'' # [d1, d0]"
    by (simp add: is_space_def)
  have 2: "take 8 (ds @ CHR ''.'' # [d1, d0]) \<noteq> ''Infinity''"
    using ds is_digit_not_special(4) [OF c] by simp
  have 4: "takeWhile is_digit (ds @ CHR ''.'' # [d1, d0]) = ds"
    "dropWhile is_digit (ds @ CHR ''.'' # [d1, d0]) = CHR ''.'' # [d1, d0]"
    using assms(1) by (rule takeWhile_digits_dot)+
  show ?thesis
    unfolding parseFloat_str_def Let_def 1
    using 2 assms(2,3,4)
    by (simp add: 4 exponent_def scale10_def)
qed

lemma two_digits: "nat_of_digits [digit_char (n div 10), digit_char n] = n mod 100"
proof -
  have "n mod (10 * 10) = 10 * (n div 10 mod 10) + n mod 10"
    by (rule mod_mult2_eq)
  then have "10 * (n div 10 mod 10) + n mod 10 = n mod 100"
    by simp
  moreover have "nat_of_digits [digit_char (n div 10), digit_char n] = 10 * (n div 10 mod 10) + n mod 10"
    unfolding nat_of_digits_def by (simp only: foldl.simps digit_val_digit_char) simp
  ultimately show ?thesis by (simp only:)
qed

lemma div_mod_100: "(of_nat (n div 100) :: rat) + of_nat (n mod 100) / 100 = of_nat n / 100"
proof -
  have "of_nat (100 * (n div 100) + n mod 100) = (of_nat n :: rat)"
    by (simp only: mult_div_mod_eq)
  then have "100 * of_nat (n div 100) + of_nat (n mod 100) = (of_nat n :: rat)"
    by (simp only: of_nat_add of_nat_mult of_nat_numeral)
  then show ?thesis by linarith
qed

text \<open>Reading back what \<open>toFixed(2)\<close> printed gives the rounded value.\<close>

lemma parseFloat_toFixed2:
  "parseFloat_str (toFixed2 (Num x)) =
     Num (if x < 0 then - (of_nat (cents x) / 100) else of_nat (cents x) / 100)"
proof -
  let ?ds = "show_nat (cents x div 100)"
  let ?d1 = "digit_char (cents x div 10)"
  let ?d0 = "digit_char (cents x)"
  have v: "(of_nat (nat_of_digits ?ds) :: rat) + of_nat (nat_of_digits [?d1, ?d0]) / 100 =
      of_nat (cents x) / 100"
    by (simp only: two_digits nat_of_digits_show_nat div_mod_100)
  show ?thesis
  proof (cases "x < 0")
    case True
    have "parseFloat_str (CHR ''-'' # ?ds @ CHR ''.'' # [?d1, ?d0]) = Num (- (of_nat (cents x) / 100))"
      using parse_signed [OF show_nat_digits show_nat_nonempty is_digit_digit_char is_digit_digit_char,
          of "cents x div 100" "cents x div 10" "cents x"]
      by (simp only: v)
    with True show ?thesis by simp
  next
    case False
    have "parseFloat_str (?ds @ CHR ''.'' # [?d1, ?d0]) = Num (of_nat (cents x) / 100)"
      using parse_unsigned [OF show_nat_digits show_nat_nonempty is_digit_digit_char is_digit_digit_char,
          of "cents x div 100" "cents x div 10" "cents x"]
      by (simp only: v)
    with False show ?thesis by simp
  qed
qed

text \<open>The rounded value is within half a cent of the magnitude.\<close>

lemma cents_close: "\<bar>of_nat (cents x) / 100 - \<bar>x\<bar>\<bar> \<le> 1 / 200"
proof -
  define y where "y = \<bar>x\<bar> * 100 + 1 / 2"
  have y0: "0 \<le> y" by (simp add: y_def)
  then have "0 \<le> \<lfloor>y\<rfloor>" by simp
  then have c: "(of_nat (cents x) :: rat) = of_int \<lfloor>y\<rfloor>"
    by (simp add: cents_def y_def)
  define z where "z = (of_int \<lfloor>y\<rfloor> :: rat)"
  define a where "a = \<bar>x\<bar>"
  have "z \<le> y" "y < z + 1"
    unfolding z_def by linarith+
  then have "z \<le> a * 100 + 1 / 2" "a * 100 + 1 / 2 < z + 1"
    by (simp_all add: y_def a_def)
  then have "z / 100 - a \<le> 1 / 200" "- (z / 100 - a) \<le> 1 / 200"
    by (simp_all add: field_simps)
  then have "\<bar>z / 100 - a\<bar> \<le> 1 / 200"
    by (rule abs_leI)
  then show ?thesis
    by (simp only: c z_def a_def)
qed

section \<open>The split calculation\<close>

lemma parseFloat_str_empty: "parseFloat_str [] = NaN"
  by (simp add: parseFloat_str_def)

lemma parsed_number_truthy: "parseFloat v = Num a \<Longrightarrow> a \<noteq> 0 \<Longrightarrow> \<not> falsy v"
  by (cases v) (auto simp: parseFloat_str_empty)

lemma sum_list_const: "(\<Sum>u\<leftarrow>xs. (r :: rat)) = of_nat (length xs) * r"
  by (induction xs) (simp_all add: algebra_simps)

text \<open>
  Claim C7. An equal split of a positive amount \<open>a\<close> among \<open>n \<ge> 1\<close> participants: every
  calculated share is \<open>a / n\<close> printed by \<open>toFixed(2)\<close> with a \<open>null\<close> percentage; the
  amount stored for each participant is the value \<open>r\<close> that print denotes, a whole number
  of cents within 0.005 of \<open>a / n\<close> (each share rounded on its own, nothing
  redistributed); and the stored shares add up to within \<open>n * 0.005\<close> of \<open>a\<close>.
\<close>

theorem C7_equal_split_shares:
  assumes "\<not> falsy (bodyField body ''group_id'')"
    and "\<not> falsy (bodyField body ''description'')"
    and "\<not> falsy (bodyField body ''paid_by'')"
    and "bodyField body ''split_type'' = JStr ''equal''"
    and "bodyField body ''splits'' = JArr xs"
    and "xs \<noteq> []"
    and "parseFloat (bodyField body ''amount'') = Num a"
    and "0 < a"
    and "r = of_nat (cents (a / of_nat (length xs))) / 100"
  shows "calculateSplits (bodyField body ''amount'') (JStr ''equal'') (JArr xs) =
           Inr (map (\<lambda>u. \<lparr>cs_user_id = u,
                            cs_amount = toFixed2 (Num (a / of_nat (length xs))),
                            cs_percentage = JNull\<rparr>) xs)
       \<and> createExpense t body =
           (Inr (length (tbl_expenses t),
                 \<lparr>ne_group_id = bodyField body ''group_id'',
                  ne_description = bodyField body ''description'',
                  ne_amount = Num a,
                  ne_paid_by = bodyField body ''paid_by'',
                  ne_split_type = JStr ''equal''\<rparr>),
            t\<lparr>tbl_expenses := tbl_expenses t @
                 [(length (tbl_expenses t),
                   \<lparr>ne_group_id = bodyField body ''group_id'',
                    ne_description = bodyField body ''description'',
                    ne_amount = Num a,
                    ne_paid_by = bodyField body ''paid_by'',
                    ne_split_type = JStr ''equal''\<rparr>)],
              tbl_expense_splits := tbl_expense_splits t @
                 map (\<lambda>u. \<lparr>ns_expense_id = length (tbl_expenses t), ns_user_id = u,
                            ns_amount = Num r, ns_percentage = JNull\<rparr>) xs\<rparr>)
       \<and> \<bar>r - a / of_nat (length xs)\<bar> \<le> 5 / 1000
       \<and> \<bar>(\<Sum>u\<leftarrow>xs. r) - a\<bar> \<le> of_nat (length xs) * (5 / 1000)"
proof -
  let ?n = "of_nat (length xs) :: rat"
  let ?q = "a / ?n"
  have n: "0 < ?n" using assms(6) by simp
  then have q: "0 < ?q" using assms(8) by simp
  have d: "js_div (parseFloat (bodyField body ''amount'')) (Num ?n) = Num ?q"
    using n assms(7) by simp
  have 1: "calculateSplits (bodyField body ''amount'') (JStr ''equal'') (JArr xs) =
           Inr (map (\<lambda>u. \<lparr>cs_user_id = u, cs_amount = toFixed2 (Num ?q),
                            cs_percentage = JNull\<rparr>) xs)"
    unfolding calculateSplits_def by (simp add: d del: toFixed2.simps js_div.simps)
  have p: "parseFloat_str (toFixed2 (Num ?q)) = Num r"
    using q by (simp only: parseFloat_toFixed2 assms(9)) simp
  have a: "\<not> falsy (bodyField body ''amount'')"
    using assms(7,8) by (intro parsed_number_truthy [of _ a]) simp_all
  have 2: "createExpense t body =
           (Inr (length (tbl_expenses t),
                 \<lparr>ne_group_id = bodyField body ''group_id'',
                  ne_description = bodyField body ''description'',
                  ne_amount = Num a,
                  ne_paid_by = bodyField body ''paid_by'',
                  ne_split_type = JStr ''equal''\<rparr>),
            t\<lparr>tbl_expenses := tbl_expenses t @
                 [(length (tbl_expenses t),
                   \<lparr>ne_group_id = bodyField body ''group_id'',
                    ne_description = bodyField body ''description'',
                    ne_amount = Num a,
                    ne_paid_by = bodyField body ''paid_by'',
                    ne_split_type = JStr ''equal''\<rparr>)],
              tbl_expense_splits := tbl_expense_splits t @
                 map (\<lambda>u. \<lparr>ns_expense_id = length (tbl_expenses t), ns_user_id = u,
                            ns_amount = Num r, ns_percentage = JNull\<rparr>) xs\<rparr>)"
    unfolding createExpense_def Let_def
    using assms(1-3) a
    by (simp add: assms(4,5,7) 1 p comp_def del: toFixed2.simps)
  have "\<bar>of_nat (cents ?q) / 100 - \<bar>?q\<bar>\<bar> \<le> 1 / 200"
    by (rule cents_close)
  moreover have "\<bar>?q\<bar> = ?q"
    using q by (rule abs_of_pos)
  ultimately have "\<bar>r - ?q\<bar> \<le> 1 / 200"
    by (simp only: assms(9))
  then have 3: "\<bar>r - ?q\<bar> \<le> 5 / 1000"
    by simp
  have "(\<Sum>u\<leftarrow>xs. r) - a = ?n * (r - ?q)"
    using n by (simp add: sum_list_const algebra_simps)
  then have "\<bar>(\<Sum>u\<leftarrow>xs. r) - a\<bar> = ?n * \<bar>r - ?q\<bar>"
    using n by (simp add: abs_mult)
  also have "\<dots> \<le> ?n * (5 / 1000)"
    using 3 n by (intro mult_left_mono) simp_all
  finally have 4: "\<bar>(\<Sum>u\<leftarrow>xs. r) - a\<bar> \<le> ?n * (5 / 1000)" .
  from 1 2 3 4 show ?thesis by (intro conjI)
qed

text \<open>The theorem at 90 split among A, B and C: three shares of 30.00.\<close>

theorem C7_witness:
  "calculateSplits
     (bodyField [(''group_id'', JStr ''g''), (''description'', JStr ''Dinner''),
                 (''amount'', JNum (Num 90)), (''paid_by'', JStr ''A''),
                 (''split_type'', JStr ''equal''),
                 (''splits'', JArr [JStr ''A'', JStr ''B'', JStr ''C''])] ''amount'')
     (JStr ''equal'') (JArr [JStr ''A'', JStr ''B'', JStr ''C'']) =
     Inr [\<lparr>cs_user_id = JStr ''A'', cs_amount = ''30.00'', cs_percentage = JNull\<rparr>,
          \<lparr>cs_user_id = JStr ''B'', cs_amount = ''30.00'', cs_percentage = JNull\<rparr>,
          \<lparr>cs_user_id = JStr ''C'', cs_amount = ''30.00'', cs_percentage = JNull\<rparr>]
   \<and> tbl_expense_splits (snd (createExpense
         \<lparr>tbl_expenses = [], tbl_expense_splits = [], tbl_settlements = []\<rparr>
         [(''group_id'', JStr ''g''), (''description'', JStr ''Dinner''),
          (''amount'', JNum (Num 90)), (''paid_by'', JStr ''A''),
          (''split_type'', JStr ''equal''),
          (''splits'', JArr [JStr ''A'', JStr ''B'', JStr ''C''])])) =
       [\<lparr>ns_expense_id = 0, ns_user_id = JStr ''A'', ns_amount = Num 30, ns_percentage = JNull\<rparr>,
        \<lparr>ns_expense_id = 0, ns_user_id = JStr ''B'', ns_amount = Num 30, ns_percentage = JNull\<rparr>,
        \<lparr>ns_expense_id = 0, ns_user_id = JStr ''C'', ns_amount = Num 30, ns_percentage = JNull\<rparr>]
   \<and> \<bar>(\<Sum>u\<leftarrow>[JStr ''A'', JStr ''B'', JStr ''C'']. (30 :: rat)) - 90\<bar> \<le> 3 * (5 / 1000)"
proof -
  let ?body = "[(''group_id'', JStr ''g''), (''description'', JStr ''Dinner''),
                (''amount'', JNum (Num 90)), (''paid_by'', JStr ''A''),
                (''split_type'', JStr ''equal''),
                (''splits'', JArr [JStr ''A'', JStr ''B'', JStr ''C''])]"
  let ?xs = "[JStr ''A'', JStr ''B'', JStr ''C'']"
  have 1: "\<not> falsy (bodyField ?body ''group_id'')"
    and 2: "\<not> falsy (bodyField ?body ''description'')"
    and 3: "\<not> falsy (bodyField ?body ''paid_by'')"
    and 4: "bodyField ?body ''split_type'' = JStr ''equal''"
    and 5: "bodyField ?body ''splits'' = JArr ?xs"
    and 6: "?xs \<noteq> []"
    and 7: "parseFloat (bodyField ?body ''amount'') = Num 90"
    and 8: "(0 :: rat) < 90"
    by (simp_all add: bodyField_def)
  have 9: "(30 :: rat) = of_nat (cents (90 / of_nat (length ?xs))) / 100"
    by (simp add: cents_values)
  show ?thesis
    using C7_equal_split_shares [OF 1 2 3 4 5 6 7 8 9,
        of "\<lparr>tbl_expenses = [], tbl_expense_splits = [], tbl_settlements = []\<rparr>"]
    by (simp add: toFixed2_values del: toFixed2.simps)
qed

lemma getProp_propOf: "x \<noteq> JUndefined \<Longrightarrow> x \<noteq> JNull \<Longrightarrow> getProp x k = Inr (propOf x k)"
  by (cases x) (simp_all add: propOf_def)

lemma parsed_not_null:
  assumes "parseFloat (propOf x k) \<noteq> NaN"
  shows "x \<noteq> JUndefined \<and> x \<noteq> JNull"
  using assms by (cases x) (simp_all add: propOf_def)

lemma mapE_exactSplit:
  "list_all (\<lambda>x. x \<noteq> JUndefined \<and> x \<noteq> JNull) xs \<Longrightarrow>
   mapE exactSplit xs =
     Inr (map (\<lambda>x. \<lparr>cs_user_id = propOf x ''user_id'',
                      cs_amount = toFixed2 (parseFloat (propOf x ''amount'')),
                      cs_percentage = JNull\<rparr>) xs)"
  by (induction xs) (simp_all add: exactSplit_def getProp_propOf)

lemma mapE_percentageSplit:
  "list_all (\<lambda>x. x \<noteq> JUndefined \<and> x \<noteq> JNull) xs \<Longrightarrow>
   mapE (percentageSplit amount) xs =
     Inr (map (\<lambda>x. \<lparr>cs_user_id = propOf x ''user_id'',
                      cs_amount = toFixed2 (js_div (js_mul (parseFloat amount)
                                     (parseFloat (propOf x ''percentage''))) (Num 100)),
                      cs_percentage = JNum (parseFloat (propOf x ''percentage''))\<rparr>) xs)"
  by (induction xs) (simp_all add: percentageSplit_def getProp_propOf)

lemma sumProp_numbers:
  "map (\<lambda>x. parseFloat (propOf x k)) xs = map Num as \<Longrightarrow>
   sumProp k (Num acc) xs = Inr (Num (acc + sum_list as))"
proof (induction xs arbitrary: as acc)
  case Nil
  then show ?case by simp
next
  case (Cons x xs)
  then obtain a as' where as: "as = a # as'" "parseFloat (propOf x k) = Num a"
    "map (\<lambda>x. parseFloat (propOf x k)) xs = map Num as'"
    by (cases as) auto
  then have "x \<noteq> JUndefined \<and> x \<noteq> JNull"
    using parsed_not_null [of x k] by simp
  then have "getProp x k = Inr (propOf x k)"
    by (simp add: getProp_propOf)
  then show ?case
    using Cons.IH [OF as(3), of "acc + a"] as(1,2) by (simp add: add.assoc)
qed

lemma numbers_not_null:
  "map (\<lambda>x. parseFloat (propOf x k)) xs = map Num as \<Longrightarrow>
   list_all (\<lambda>x. x \<noteq> JUndefined \<and> x \<noteq> JNull) xs"
proof (induction xs arbitrary: as)
  case Nil
  then show ?case by simp
next
  case (Cons x xs)
  then obtain a as' where as: "as = a # as'" "parseFloat (propOf x k) = Num a"
    "map (\<lambda>x. parseFloat (propOf x k)) xs = map Num as'"
    by (cases as) auto
  then have "x \<noteq> JUndefined \<and> x \<noteq> JNull"
    using parsed_not_null [of x k] by simp
  then show ?case
    using Cons.IH [OF as(3)] by simp
qed

text \<open>
  Claim C8. An exact split whose participant amounts and total are numbers is accepted if
  and only if the amounts add up to within 0.01 of the total: within the tolerance every
  share carries the participant's amount printed by \<open>toFixed(2)\<close> (and a \<open>null\<close>
  percentage); beyond it the request is refused with status 400.
\<close>

theorem C8_exact_split_accepted_iff_within_tolerance:
  assumes "map (\<lambda>x. parseFloat (propOf x ''amount'')) xs = map Num as"
    and "parseFloat amount = Num a"
  shows "calculateSplits amount (JStr ''exact'') (JArr xs) =
           (if \<bar>sum_list as - a\<bar> \<le> 1 / 100
            then Inr (map (\<lambda>x. \<lparr>cs_user_id = propOf x ''user_id'',
                                  cs_amount = toFixed2 (parseFloat (propOf x ''amount'')),
                                  cs_percentage = JNull\<rparr>) xs)
            else Inl (Status400 ''Sum of exact splits must equal total amount''))"
proof -
  have "sumProp ''amount'' (Num 0) xs = Inr (Num (0 + sum_list as))"
    using assms(1) by (rule sumProp_numbers)
  moreover have "mapE exactSplit xs =
     Inr (map (\<lambda>x. \<lparr>cs_user_id = propOf x ''user_id'',
                      cs_amount = toFixed2 (parseFloat (propOf x ''amount'')),
                      cs_percentage = JNull\<rparr>) xs)"
    using numbers_not_null [OF assms(1)] by (rule mapE_exactSplit)
  ultimately show ?thesis
    unfolding calculateSplits_def
    by (simp add: assms(2) js_sub_def not_less del: toFixed2.simps)
qed

lemma toFixed2_cents_values:
  "toFixed2 (Num (3333 / 100)) = ''33.33''" "toFixed2 (Num (1667 / 50)) = ''33.34''"
proof -
  have "cents (3333 / 100) = 3333" "cents (1667 / 50) = 3334"
    by (rule cents_eqI, simp, simp)+
  then show "toFixed2 (Num (3333 / 100)) = ''33.33''" "toFixed2 (Num (1667 / 50)) = ''33.34''"
    by (simp_all add: show_nat.simps digit_char_def)
qed

text \<open>
  The theorem at a total of 100: the amounts 33.33, 33.33 and 33.34 are accepted, the
  amounts 60 and 30 are refused.
\<close>

theorem C8_witness:
  "calculateSplits (JStr ''100'') (JStr ''exact'')
     (JArr [JObj [(''user_id'', JStr ''A''), (''amount'', JStr ''33.33'')],
            JObj [(''user_id'', JStr ''B''), (''amount'', JStr ''33.33'')],
            JObj [(''user_id'', JStr ''C''), (''amount'', JNum (Num (1667 / 50)))]]) =
     Inr [\<lparr>cs_user_id = JStr ''A'', cs_amount = ''33.33'', cs_percentage = JNull\<rparr>,
          \<lparr>cs_user_id = JStr ''B'', cs_amount = ''33.33'', cs_percentage = JNull\<rparr>,
          \<lparr>cs_user_id = JStr ''C'', cs_amount = ''33.34'', cs_percentage = JNull\<rparr>]
   \<and> calculateSplits (JStr ''100'') (JStr ''exact'')
     (JArr [JObj [(''user_id'', JStr ''A''), (''amount'', JNum (Num 60))],
            JObj [(''user_id'', JStr ''B''), (''amount'', JNum (Num 30))]]) =
     Inl (Status400 ''Sum of exact splits must equal total amount'')"
proof -
  have p: "parseFloat_str ''33.33'' = Num (3333 / 100)" "parseFloat_str ''100'' = Num 100"
    by (simp_all add: parse_defs)
  let ?xs = "[JObj [(''user_id'', JStr ''A''), (''amount'', JStr ''33.33'')],
              JObj [(''user_id'', JStr ''B''), (''amount'', JStr ''33.33'')],
              JObj [(''user_id'', JStr ''C''), (''amount'', JNum (Num (1667 / 50)))]]"
  let ?ys = "[JObj [(''user_id'', JStr ''A''), (''amount'', JNum (Num 60))],
              JObj [(''user_id'', JStr ''B''), (''amount'', JNum (Num 30))]]"
  have 1: "map (\<lambda>x. parseFloat (propOf x ''amount'')) ?xs = map Num [3333 / 100, 3333 / 100, 1667 / 50]"
    by (simp add: propOf_def bodyField_def p)
  have 2: "map (\<lambda>x. parseFloat (propOf x ''amount'')) ?ys = map Num [60, 30]"
    by (simp add: propOf_def bodyField_def)
  have 3: "parseFloat (JStr ''100'') = Num 100"
    by (simp add: p)
  show ?thesis
    using C8_exact_split_accepted_iff_within_tolerance [OF 1 3]
      C8_exact_split_accepted_iff_within_tolerance [OF 2 3]
    by (simp add: propOf_def bodyField_def p toFixed2_cents_values del: toFixed2.simps)
qed

lemma sumProp_NaN_acc:
  "list_all (\<lambda>x. x \<noteq> JUndefined \<and> x \<noteq> JNull) xs \<Longrightarrow> sumProp k NaN xs = Inr NaN"
  by (induction xs) (simp_all add: getProp_propOf)

lemma js_add_NaN_right: "js_add x NaN = NaN"
  by (cases x) simp_all

lemma sumProp_NaN:
  "list_all (\<lambda>x. x \<noteq> JUndefined \<and> x \<noteq> JNull) xs \<Longrightarrow>
   NaN \<in> set (map (\<lambda>x. parseFloat (propOf x k)) xs) \<Longrightarrow>
   sumProp k acc xs = Inr NaN"
proof (induction xs arbitrary: acc)
  case Nil
  then show ?case by simp
next
  case (Cons x xs)
  show ?case
  proof (cases "parseFloat (propOf x k) = NaN")
    case True
    then show ?thesis
      using Cons.prems(1) by (simp add: getProp_propOf js_add_NaN_right sumProp_NaN_acc)
  next
    case False
    then show ?thesis
      using Cons by (auto simp add: getProp_propOf)
  qed
qed

lemma NaN_passes: "\<not> js_gt (js_abs (js_sub NaN y)) z"
  by (simp add: js_sub_def)

text \<open>
  Claim C10. When the amount of some participant of an exact split parses to \<open>NaN\<close>
  (and no element of \<open>splits\<close> is \<open>null\<close> or \<open>undefined\<close>, on which reading a property
  throws), the computed sum is \<open>NaN\<close>, the comparison \<open>Math.abs(sum - total) > 0.01\<close> is
  false, and the split is calculated instead of being refused; the same holds for the
  percentages of a percentage split and the comparison with 100.
\<close>

theorem C10_nan_sum_passes_the_check:
  assumes "list_all (\<lambda>x. x \<noteq> JUndefined \<and> x \<noteq> JNull) xs"
  shows "(NaN \<in> set (map (\<lambda>x. parseFloat (propOf x ''amount'')) xs) \<longrightarrow>
            sumProp ''amount'' (Num 0) xs = Inr NaN
          \<and> \<not> js_gt (js_abs (js_sub NaN (parseFloat amount))) (Num (1 / 100))
          \<and> calculateSplits amount (JStr ''exact'') (JArr xs) =
              Inr (map (\<lambda>x. \<lparr>cs_user_id = propOf x ''user_id'',
                               cs_amount = toFixed2 (parseFloat (propOf x ''amount'')),
                               cs_percentage = JNull\<rparr>) xs))
       \<and> (NaN \<in> set (map (\<lambda>x. parseFloat (propOf x ''percentage'')) xs) \<longrightarrow>
            sumProp ''percentage'' (Num 0) xs = Inr NaN
          \<and> \<not> js_gt (js_abs (js_sub NaN (Num 100))) (Num (1 / 100))
          \<and> calculateSplits amount (JStr ''percentage'') (JArr xs) =
              Inr (map (\<lambda>x. \<lparr>cs_user_id = propOf x ''user_id'',
                               cs_amount = toFixed2 (js_div (js_mul (parseFloat amount)
                                              (parseFloat (propOf x ''percentage''))) (Num 100)),
                               cs_percentage = JNum (parseFloat (propOf x ''percentage''))\<rparr>) xs))"
proof (intro conjI impI)
  assume "NaN \<in> set (map (\<lambda>x. parseFloat (propOf x ''amount'')) xs)"
  with assms show s: "sumProp ''amount'' (Num 0) xs = Inr NaN"
    by (rule sumProp_NaN)
  show "\<not> js_gt (js_abs (js_sub NaN (parseFloat amount))) (Num (1 / 100))"
    by (rule NaN_passes)
  show "calculateSplits amount (JStr ''exact'') (JArr xs) =
              Inr (map (\<lambda>x. \<lparr>cs_user_id = propOf x ''user_id'',
                               cs_amount = toFixed2 (parseFloat (propOf x ''amount'')),
                               cs_percentage = JNull\<rparr>) xs)"
    unfolding calculateSplits_def
    by (simp add: s NaN_passes mapE_exactSplit [OF assms] del: toFixed2.simps)
next
  assume "NaN \<in> set (map (\<lambda>x. parseFloat (propOf x ''percentage'')) xs)"
  with assms show s: "sumProp ''percentage'' (Num 0) xs = Inr NaN"
    by (rule sumProp_NaN)
  show "\<not> js_gt (js_abs (js_sub NaN (Num 100))) (Num (1 / 100))"
    by (rule NaN_passes)
  show "calculateSplits amount (JStr ''percentage'') (JArr xs) =
              Inr (map (\<lambda>x. \<lparr>cs_user_id = propOf x ''user_id'',
                               cs_amount = toFixed2 (js_div (js_mul (parseFloat amount)
                                              (parseFloat (propOf x ''percentage''))) (Num 100)),
                               cs_percentage = JNum (parseFloat (propOf x ''percentage''))\<rparr>) xs)"
    unfolding calculateSplits_def
    by (simp add: s NaN_passes mapE_percentageSplit [OF assms] del: toFixed2.simps js_div.simps js_mul.simps)
qed

text \<open>
  The theorem at two requests: an exact split with the amount \<open>abc\<close>, and a percentage
  split with the percentage \<open>half\<close> and a participant without any percentage.
\<close>

theorem C10_witness:
  "calculateSplits (JNum (Num 10)) (JStr ''exact'')
     (JArr [JObj [(''user_id'', JStr ''A''), (''amount'', JStr ''abc'')],
            JObj [(''user_id'', JStr ''B''), (''amount'', JNum (Num 20))]]) =
     Inr [\<lparr>cs_user_id = JStr ''A'', cs_amount = ''NaN'', cs_percentage = JNull\<rparr>,
          \<lparr>cs_user_id = JStr ''B'', cs_amount = ''20.00'', cs_percentage = JNull\<rparr>]
   \<and> calculateSplits (JNum (Num 10)) (JStr ''percentage'')
     (JArr [JObj [(''user_id'', JStr ''A''), (''percentage'', JStr ''half'')],
            JObj [(''user_id'', JStr ''B'')]]) =
     Inr [\<lparr>cs_user_id = JStr ''A'', cs_amount = ''NaN'', cs_percentage = JNum NaN\<rparr>,
          \<lparr>cs_user_id = JStr ''B'', cs_amount = ''NaN'', cs_percentage = JNum NaN\<rparr>]"
proof -
  have p: "parseFloat_str ''abc'' = NaN" "parseFloat_str ''half'' = NaN"
    by (simp_all add: parse_defs)
  let ?xs = "[JObj [(''user_id'', JStr ''A''), (''amount'', JStr ''abc'')],
              JObj [(''user_id'', JStr ''B''), (''amount'', JNum (Num 20))]]"
  let ?ys = "[JObj [(''user_id'', JStr ''A''), (''percentage'', JStr ''half'')],
              JObj [(''user_id'', JStr ''B'')]]"
  have 1: "list_all (\<lambda>x. x \<noteq> JUndefined \<and> x \<noteq> JNull) ?xs"
    and 2: "list_all (\<lambda>x. x \<noteq> JUndefined \<and> x \<noteq> JNull) ?ys"
    by simp_all
  have 3: "NaN \<in> set (map (\<lambda>x. parseFloat (propOf x ''amount'')) ?xs)"
    and 4: "NaN \<in> set (map (\<lambda>x. parseFloat (propOf x ''percentage'')) ?ys)"
    by (simp_all add: propOf_def bodyField_def p)
  show ?thesis
    using C10_nan_sum_passes_the_check [OF 1, of "JNum (Num 10)"]
      C10_nan_sum_passes_the_check [OF 2, of "JNum (Num 10)"] 3 4
    by (simp add: propOf_def bodyField_def p toFixed2_values del: toFixed2.simps(4))
qed

end
